theory Spec2Isabelle
  imports Complex_Main
begin

section \<open>Numbers\<close>

text \<open>
  The Python sources compute on \<^verbatim>\<open>float\<close>.  The embedding reads a float as the
  real number it denotes.  The distance of \<^verbatim>\<open>geofencing.py\<close> and what is computed
  from it, and the scores of \<^verbatim>\<open>location_utils.py\<close>, are computed here in exact
  arithmetic with the exact functions for \<^verbatim>\<open>math.sin\<close>, \<^verbatim>\<open>math.cos\<close>,
  \<^verbatim>\<open>math.asin\<close>, \<^verbatim>\<open>math.sqrt\<close> and \<^verbatim>\<open>math.radians\<close>: their rounding
  in the last place is not modelled.  Decimal literals of the sources are the same
  decimal fractions here.
\<close>

definition radians :: "real \<Rightarrow> real" where
  "radians d = d * (pi / 180)"

text \<open>
  Python's \<^verbatim>\<open>round\<close> rounds to the nearest value and a tie to the even
  neighbour.  \<open>py_round\<close> is \<^verbatim>\<open>round(x)\<close>, \<open>py_round_to n\<close> is
  \<^verbatim>\<open>round(x, n)\<close> for \<open>n \<ge> 0\<close>.
\<close>

definition py_round :: "real \<Rightarrow> int" where
  "py_round x =
     (let f = \<lfloor>x\<rfloor>;
          d = x - of_int f
      in if d < 1 / 2 then f
         else if 1 / 2 < d then f + 1
         else if even f then f
         else f + 1)"

definition py_round_to :: "nat \<Rightarrow> real \<Rightarrow> real" where
  "py_round_to n x = of_int (py_round (x * 10 ^ n)) / 10 ^ n"

text \<open>\<^verbatim>\<open>str\<close> of an integer, as an f-string renders it.\<close>

definition digit_char :: "nat \<Rightarrow> char" where
  "digit_char d = ''0123456789'' ! d"

fun str_nat :: "nat \<Rightarrow> string" where
  "str_nat n = (if n < 10 then [digit_char n] else str_nat (n div 10) @ [digit_char (n mod 10)])"

declare str_nat.simps [simp del]

definition str_int :: "int \<Rightarrow> string" where
  "str_int i = (if i < 0 then CHR ''-'' # str_nat (nat (- i)) else str_nat (nat i))"

text \<open>\<^verbatim>\<open>int\<close> of a float truncates towards zero.\<close>

definition py_int :: "real \<Rightarrow> int" where
  "py_int x = (if 0 \<le> x then \<lfloor>x\<rfloor> else \<lceil>x\<rceil>)"

text \<open>The exceptions of the Python runtime that the modelled code can raise.\<close>

datatype py_error = IndexError | UnboundLocalError | ValueError | TypeError

text \<open>
  The sums and the quotient of \<^verbatim>\<open>analytics.py\<close> are those of the machine: the
  exact result rounded to the nearest number of IEEE 754 binary64, a tie to the even
  significand.  \<open>binary64\<close> is this rounding, with \<open>ulp\<close> the spacing of the
  floats around \<open>x\<close>; overflow to infinity is outside the model.
\<close>

definition binary64 :: "real \<Rightarrow> real" where
  "binary64 x =
     (if x = 0 then 0
      else
        (let e = max \<lfloor>log 2 \<bar>x\<bar>\<rfloor> (- 1022);
             ulp = 2 powr (of_int e - 52)
         in of_int (py_round (x / ulp)) * ulp))"

definition float_add :: "real \<Rightarrow> real \<Rightarrow> real" where
  "float_add x y = binary64 (x + y)"

definition float_div :: "real \<Rightarrow> real \<Rightarrow> real" where
  "float_div x y = binary64 (x / y)"

section \<open>app/config.py\<close>

definition OAU_CENTER_LAT :: real where
  "OAU_CENTER_LAT = 7.5227"

definition OAU_CENTER_LNG :: real where
  "OAU_CENTER_LNG = 4.5198"

definition OAU_RADIUS_KM :: real where
  "OAU_RADIUS_KM = 5.0"

section \<open>app/core/geofencing.py\<close>

subsection \<open>\<^verbatim>\<open>calculate_distance\<close>\<close>

text \<open>
  The argument of the square root and of the inverse sine, named \<open>a\<close> in the source.
  \<^verbatim>\<open>math.sqrt\<close> raises below 0 and \<^verbatim>\<open>math.asin\<close> raises outside \<open>[-1, 1]\<close>;
  lemma \<open>haversine_a_range\<close> below shows that neither happens.
\<close>

definition haversine_a :: "real \<Rightarrow> real \<Rightarrow> real \<Rightarrow> real \<Rightarrow> real" where
  "haversine_a lat1 lon1 lat2 lon2 =
     (let dlat = lat2 - lat1;
          dlon = lon2 - lon1
      in (sin (dlat / 2))\<^sup>2 + cos lat1 * cos lat2 * (sin (dlon / 2))\<^sup>2)"

definition calculate_distance :: "real \<Rightarrow> real \<Rightarrow> real \<Rightarrow> real \<Rightarrow> real" where
  "calculate_distance lat1 lon1 lat2 lon2 =
     (let R = 6371;
          a = haversine_a (radians lat1) (radians lon1) (radians lat2) (radians lon2);
          c = 2 * arcsin (sqrt a)
      in R * c)"

text \<open>
  The haversine formula as the specification words it: with \<open>hav \<theta> = sin\<^sup>2 (\<theta> / 2)\<close>,
  the distance on a sphere of radius \<open>r\<close> is
  \<open>2 r arcsin (sqrt (hav \<Delta>\<phi> + cos \<phi>\<^sub>1 cos \<phi>\<^sub>2 hav \<Delta>\<lambda>))\<close>.
\<close>

definition hav :: "real \<Rightarrow> real" where
  "hav \<theta> = (sin (\<theta> / 2))\<^sup>2"

definition haversine_spec :: "real \<Rightarrow> real \<Rightarrow> real \<Rightarrow> real \<Rightarrow> real \<Rightarrow> real" where
  "haversine_spec r phi1 lam1 phi2 lam2 =
     2 * r * arcsin (sqrt (hav (phi2 - phi1) + cos phi1 * cos phi2 * hav (lam2 - lam1)))"

text \<open>
  The cosine of the central angle between two points of the unit sphere given by
  latitude and longitude (in radians): the inner product of their position vectors.
\<close>

definition sphere_dot :: "real \<Rightarrow> real \<Rightarrow> real \<Rightarrow> real \<Rightarrow> real" where
  "sphere_dot lat1 lon1 lat2 lon2 =
     sin lat1 * sin lat2 + cos lat1 * cos lat2 * cos (lon2 - lon1)"

subsection \<open>\<^verbatim>\<open>determine_campus_zone\<close>\<close>

definition determine_campus_zone :: "real \<Rightarrow> real \<Rightarrow> string" where
  "determine_campus_zone latitude longitude =
     (if 7.5200 \<le> latitude \<and> latitude \<le> 7.5260 \<and> 4.5180 \<le> longitude \<and> longitude \<le> 4.5230
      then ''Academic Zone''
      else if 7.5260 \<le> latitude \<and> latitude \<le> 7.5320 \<and> 4.5120 \<le> longitude \<and> longitude \<le> 4.5180
      then ''Student Residential Zone''
      else if 7.5320 \<le> latitude \<and> latitude \<le> 7.5380 \<and> 4.5100 \<le> longitude \<and> longitude \<le> 4.5150
      then ''Medical Zone''
      else if 7.5180 \<le> latitude \<and> latitude \<le> 7.5220 \<and> 4.5220 \<le> longitude \<and> longitude \<le> 4.5280
      then ''Sports & Recreation Zone''
      else ''General Campus Area'')"

text \<open>
  The specification's reading: a fixed list of named rectangles in priority order, the
  first one containing the point wins, and a catch-all otherwise.
\<close>

record zone_rect =
  zone_name :: string
  lat_lo :: real
  lat_hi :: real
  lng_lo :: real
  lng_hi :: real

definition zone_definitions :: "zone_rect list" where
  "zone_definitions =
     [\<lparr>zone_name = ''Academic Zone'',
        lat_lo = 7.5200, lat_hi = 7.5260, lng_lo = 4.5180, lng_hi = 4.5230\<rparr>,
      \<lparr>zone_name = ''Student Residential Zone'',
        lat_lo = 7.5260, lat_hi = 7.5320, lng_lo = 4.5120, lng_hi = 4.5180\<rparr>,
      \<lparr>zone_name = ''Medical Zone'',
        lat_lo = 7.5320, lat_hi = 7.5380, lng_lo = 4.5100, lng_hi = 4.5150\<rparr>,
      \<lparr>zone_name = ''Sports & Recreation Zone'',
        lat_lo = 7.5180, lat_hi = 7.5220, lng_lo = 4.5220, lng_hi = 4.5280\<rparr>]"

definition zone_contains :: "real \<Rightarrow> real \<Rightarrow> zone_rect \<Rightarrow> bool" where
  "zone_contains latitude longitude z \<longleftrightarrow>
     lat_lo z \<le> latitude \<and> latitude \<le> lat_hi z \<and> lng_lo z \<le> longitude \<and> longitude \<le> lng_hi z"

fun first_zone :: "real \<Rightarrow> real \<Rightarrow> zone_rect list \<Rightarrow> string" where
  "first_zone latitude longitude [] = ''General Campus Area''"
| "first_zone latitude longitude (z # zs) =
     (if zone_contains latitude longitude z then zone_name z
      else first_zone latitude longitude zs)"

definition resolve_zone_spec :: "real \<Rightarrow> real \<Rightarrow> string" where
  "resolve_zone_spec latitude longitude = first_zone latitude longitude zone_definitions"

subsection \<open>\<^verbatim>\<open>point_in_polygon\<close> and the campus fence\<close>

text \<open>
  The loop state of \<^verbatim>\<open>point_in_polygon\<close>: the flag, the local \<^verbatim>\<open>xinters\<close>
  (unbound until its first assignment) and the previous vertex \<^verbatim>\<open>(p1x, p1y)\<close>.
\<close>

record pip_state =
  inside :: bool
  xinters :: "real option"
  p1 :: "real \<times> real"

definition pip_step :: "real \<Rightarrow> real \<Rightarrow> real \<times> real \<Rightarrow> pip_state \<Rightarrow> py_error + pip_state" where
  "pip_step x y p2 s =
     (let p1x = fst (p1 s); p1y = snd (p1 s);
          p2x = fst p2; p2y = snd p2
      in if min p1y p2y < y \<and> y \<le> max p1y p2y \<and> x \<le> max p1x p2x
         then
           (let xi = (if p1y \<noteq> p2y
                      then Some ((y - p1y) * (p2x - p1x) / (p2y - p1y) + p1x)
                      else xinters s)
            in if p1x = p2x
               then Inr \<lparr>inside = \<not> inside s, xinters = xi, p1 = p2\<rparr>
               else (case xi of
                       None \<Rightarrow> Inl UnboundLocalError
                     | Some v \<Rightarrow>
                         Inr \<lparr>inside = (if x \<le> v then \<not> inside s else inside s),
                              xinters = xi, p1 = p2\<rparr>))
         else Inr (s\<lparr>p1 := p2\<rparr>))"

fun pip_loop :: "real \<Rightarrow> real \<Rightarrow> (real \<times> real) list \<Rightarrow> pip_state \<Rightarrow> py_error + pip_state" where
  "pip_loop x y [] s = Inr s"
| "pip_loop x y (p2 # ps) s =
     (case pip_step x y p2 s of
        Inl e \<Rightarrow> Inl e
      | Inr s' \<Rightarrow> pip_loop x y ps s')"

text \<open>The vertices \<^verbatim>\<open>polygon[i % n]\<close> for \<^verbatim>\<open>i in range(1, n + 1)\<close>.\<close>

definition pip_vertices :: "(real \<times> real) list \<Rightarrow> (real \<times> real) list" where
  "pip_vertices polygon = map (\<lambda>i. polygon ! (i mod length polygon)) [1..<length polygon + 1]"

definition point_in_polygon :: "real \<Rightarrow> real \<Rightarrow> (real \<times> real) list \<Rightarrow> py_error + bool" where
  "point_in_polygon lat lon polygon =
     (let x = lon; y = lat
      in case polygon of
           [] \<Rightarrow> Inl IndexError
         | p0 # _ \<Rightarrow>
             (case pip_loop x y (pip_vertices polygon)
                     \<lparr>inside = False, xinters = None, p1 = p0\<rparr> of
                Inl e \<Rightarrow> Inl e
              | Inr s \<Rightarrow> Inr (inside s)))"

definition oau_polygon :: "(real \<times> real) list" where
  "oau_polygon =
     [(7.5150, 4.5100),
      (7.5300, 4.5050),
      (7.5380, 4.5200),
      (7.5350, 4.5300),
      (7.5250, 4.5350),
      (7.5100, 4.5250),
      (7.5150, 4.5100)]"

definition is_within_oau_polygon :: "real \<Rightarrow> real \<Rightarrow> py_error + bool" where
  "is_within_oau_polygon latitude longitude = point_in_polygon latitude longitude oau_polygon"

definition is_within_oau_campus :: "real \<Rightarrow> real \<Rightarrow> py_error + bool" where
  "is_within_oau_campus latitude longitude =
     (let distance_from_center =
            calculate_distance latitude longitude OAU_CENTER_LAT OAU_CENTER_LNG
      in if OAU_RADIUS_KM < distance_from_center then Inr False
         else is_within_oau_polygon latitude longitude)"

subsection \<open>The landmark table\<close>

record landmark =
  lm_id :: string
  lm_lat :: real
  lm_lng :: real
  lm_name :: string
  lm_type :: string
  lm_description :: string

text \<open>\<^verbatim>\<open>OAU_LANDMARKS\<close>, in the insertion order of the dictionary literal.\<close>

definition OAU_LANDMARKS :: "landmark list" where
  "OAU_LANDMARKS =
     [\<lparr>lm_id = ''main_gate'', lm_lat = 7.5227, lm_lng = 4.5198,
        lm_name = ''Main Gate'', lm_type = ''entrance'',
        lm_description = ''Primary campus entrance''\<rparr>,
      \<lparr>lm_id = ''sub'', lm_lat = 7.5245, lm_lng = 4.5203,
        lm_name = ''Student Union Building (SUB)'', lm_type = ''building'',
        lm_description = ''Student activities center''\<rparr>,
      \<lparr>lm_id = ''oduduwa_hall'', lm_lat = 7.5234, lm_lng = 4.5189,
        lm_name = ''Oduduwa Hall'', lm_type = ''hall'',
        lm_description = ''Main auditorium''\<rparr>,
      \<lparr>lm_id = ''futa'', lm_lat = 7.5256, lm_lng = 4.5210,
        lm_name = ''Faculty of Technology'', lm_type = ''faculty'',
        lm_description = ''Engineering and Technology faculty''\<rparr>,
      \<lparr>lm_id = ''science_complex'', lm_lat = 7.5240, lm_lng = 4.5220,
        lm_name = ''Science Complex'', lm_type = ''faculty'',
        lm_description = ''Pure and Applied Sciences''\<rparr>,
      \<lparr>lm_id = ''arts_theatre'', lm_lat = 7.5230, lm_lng = 4.5180,
        lm_name = ''Arts Theatre'', lm_type = ''theatre'',
        lm_description = ''Creative Arts faculty''\<rparr>,
      \<lparr>lm_id = ''mozambique_hostel'', lm_lat = 7.5280, lm_lng = 4.5167,
        lm_name = ''Mozambique Hostel'', lm_type = ''hostel'',
        lm_description = ''Student accommodation''\<rparr>,
      \<lparr>lm_id = ''angola_hostel'', lm_lat = 7.5289, lm_lng = 4.5134,
        lm_name = ''Angola Hostel'', lm_type = ''hostel'',
        lm_description = ''Student accommodation''\<rparr>,
      \<lparr>lm_id = ''madagascar_hostel'', lm_lat = 7.5295, lm_lng = 4.5145,
        lm_name = ''Madagascar Hostel'', lm_type = ''hostel'',
        lm_description = ''Student accommodation''\<rparr>,
      \<lparr>lm_id = ''awolowo_hall'', lm_lat = 7.5270, lm_lng = 4.5150,
        lm_name = ''Awolowo Hall'', lm_type = ''hostel'',
        lm_description = ''Premier student hall''\<rparr>,
      \<lparr>lm_id = ''sports_complex'', lm_lat = 7.5198, lm_lng = 4.5234,
        lm_name = ''Sports Complex'', lm_type = ''sports'',
        lm_description = ''Sports and recreational facilities''\<rparr>,
      \<lparr>lm_id = ''teaching_hospital'', lm_lat = 7.5345, lm_lng = 4.5123,
        lm_name = ''OAU Teaching Hospital (OAUTHC)'', lm_type = ''hospital'',
        lm_description = ''Medical center''\<rparr>,
      \<lparr>lm_id = ''central_library'', lm_lat = 7.5250, lm_lng = 4.5200,
        lm_name = ''Hezekiah Oluwasanmi Library'', lm_type = ''library'',
        lm_description = ''Main university library''\<rparr>,
      \<lparr>lm_id = ''back_gate'', lm_lat = 7.5320, lm_lng = 4.5180,
        lm_name = ''Back Gate'', lm_type = ''entrance'',
        lm_description = ''Secondary campus entrance''\<rparr>,
      \<lparr>lm_id = ''coop_gate'', lm_lat = 7.5200, lm_lng = 4.5280,
        lm_name = ''Cooperative Gate'', lm_type = ''entrance'',
        lm_description = ''Residential area entrance''\<rparr>,
      \<lparr>lm_id = ''buka_junction'', lm_lat = 7.5260, lm_lng = 4.5190,
        lm_name = ''Buka Junction'', lm_type = ''food'',
        lm_description = ''Popular food court area''\<rparr>,
      \<lparr>lm_id = ''atm_point'', lm_lat = 7.5235, lm_lng = 4.5195,
        lm_name = ''Banking Complex'', lm_type = ''service'',
        lm_description = ''ATMs and banking services''\<rparr>,
      \<lparr>lm_id = ''chapel_of_wisdom'', lm_lat = 7.5225, lm_lng = 4.5175,
        lm_name = ''Chapel of Wisdom'', lm_type = ''religious'',
        lm_description = ''University chapel''\<rparr>]"

subsection \<open>\<^verbatim>\<open>get_nearest_landmark\<close>\<close>

record nearest_info =
  ni_name :: string
  ni_type :: string
  ni_distance :: real
  ni_description :: string

text \<open>
  The three locals of the scan.  \<open>min_distance = None\<close> stands for
  \<^verbatim>\<open>float('inf')\<close>, below which every distance lies.
\<close>

record scan_state =
  min_distance :: "real option"
  nearest_landmark :: string
  nearest_info :: "nearest_info option"

definition below_min :: "real \<Rightarrow> real option \<Rightarrow> bool" where
  "below_min d m = (case m of None \<Rightarrow> True | Some v \<Rightarrow> d < v)"

definition scan_init :: scan_state where
  "scan_init = \<lparr>min_distance = None, nearest_landmark = ''Unknown Location'', nearest_info = None\<rparr>"

definition scan_step :: "real \<Rightarrow> real \<Rightarrow> real \<Rightarrow> scan_state \<Rightarrow> landmark \<Rightarrow> scan_state" where
  "scan_step latitude longitude max_distance st landmark_data =
     (let distance = calculate_distance latitude longitude
                       (lm_lat landmark_data) (lm_lng landmark_data)
      in if below_min distance (min_distance st) \<and> distance \<le> max_distance
         then \<lparr>min_distance = Some distance,
               nearest_landmark = lm_name landmark_data,
               nearest_info = Some \<lparr>ni_name = lm_name landmark_data,
                                     ni_type = lm_type landmark_data,
                                     ni_distance = of_int (py_round (distance * 1000)),
                                     ni_description = lm_description landmark_data\<rparr>\<rparr>
         else st)"

definition scan_label :: "scan_state \<Rightarrow> string" where
  "scan_label st =
     (case nearest_info st of
        Some info \<Rightarrow>
          (if ni_distance info < 50 then ''At '' @ nearest_landmark st
           else if ni_distance info < 200 then ''Near '' @ nearest_landmark st
           else ''Close to '' @ nearest_landmark st @ '' ('' @ str_int (py_int (ni_distance info)) @ ''m)'')
      | None \<Rightarrow> ''On Campus (Location Unknown)'')"

text \<open>The scan over an arbitrary table; the source runs it over \<^verbatim>\<open>OAU_LANDMARKS\<close>.\<close>

definition nearest_scan :: "landmark list \<Rightarrow> real \<Rightarrow> real \<Rightarrow> real \<Rightarrow> string" where
  "nearest_scan table latitude longitude max_distance =
     scan_label (foldl (scan_step latitude longitude max_distance) scan_init table)"

definition get_nearest_landmark :: "real \<Rightarrow> real \<Rightarrow> real \<Rightarrow> string" where
  "get_nearest_landmark latitude longitude max_distance =
     nearest_scan OAU_LANDMARKS latitude longitude max_distance"

text \<open>The call with the default \<^verbatim>\<open>max_distance=1.0\<close>.\<close>

definition get_nearest_landmark_default :: "real \<Rightarrow> real \<Rightarrow> string" where
  "get_nearest_landmark_default latitude longitude = get_nearest_landmark latitude longitude 1.0"

text \<open>
  The three proximity tiers of the specification, by the distance in whole metres.
\<close>

definition tier_label :: "string \<Rightarrow> int \<Rightarrow> string" where
  "tier_label name metres =
     (if metres < 50 then ''At '' @ name
      else if metres < 200 then ''Near '' @ name
      else ''Close to '' @ name @ '' ('' @ str_int metres @ ''m)'')"

definition landmark_distance :: "real \<Rightarrow> real \<Rightarrow> landmark \<Rightarrow> real" where
  "landmark_distance latitude longitude l =
     calculate_distance latitude longitude (lm_lat l) (lm_lng l)"

text \<open>The state of the scan right after it has taken the landmark \<open>l\<close>.\<close>

definition scan_hit :: "real \<Rightarrow> real \<Rightarrow> landmark \<Rightarrow> scan_state" where
  "scan_hit latitude longitude l =
     \<lparr>min_distance = Some (landmark_distance latitude longitude l),
      nearest_landmark = lm_name l,
      nearest_info =
        Some \<lparr>ni_name = lm_name l, ni_type = lm_type l,
              ni_distance = of_int (py_round (landmark_distance latitude longitude l * 1000)),
              ni_description = lm_description l\<rparr>\<rparr>"

subsection \<open>\<^verbatim>\<open>validate_coordinates\<close>\<close>

record validation_result =
  vr_valid :: bool
  vr_within_campus :: bool
  vr_nearest_landmark :: "string option"
  vr_distance_from_center :: "real option"
  vr_zone :: "string option"
  vr_errors :: "string list"

definition validation_init :: validation_result where
  "validation_init =
     \<lparr>vr_valid = False, vr_within_campus = False, vr_nearest_landmark = None,
      vr_distance_from_center = None, vr_zone = None, vr_errors = []\<rparr>"

definition range_errors :: "real \<Rightarrow> real \<Rightarrow> string list" where
  "range_errors latitude longitude =
     (if \<not> (- 90 \<le> latitude \<and> latitude \<le> 90)
      then [''Invalid latitude: must be between -90 and 90''] else [])
     @ (if \<not> (- 180 \<le> longitude \<and> longitude \<le> 180)
        then [''Invalid longitude: must be between -180 and 180''] else [])"

definition validate_coordinates :: "real \<Rightarrow> real \<Rightarrow> py_error + validation_result" where
  "validate_coordinates latitude longitude =
     (let result = validation_init\<lparr>vr_errors := range_errors latitude longitude\<rparr>
      in if vr_errors result \<noteq> [] then Inr result
         else
           (case is_within_oau_campus latitude longitude of
              Inl e \<Rightarrow> Inl e
            | Inr w \<Rightarrow>
                (let result = result
                       \<lparr>vr_within_campus := w,
                        vr_distance_from_center :=
                          Some (calculate_distance latitude longitude
                                  OAU_CENTER_LAT OAU_CENTER_LNG)\<rparr>
                 in if vr_within_campus result
                    then Inr (result
                           \<lparr>vr_valid := True,
                            vr_nearest_landmark :=
                              Some (get_nearest_landmark_default latitude longitude),
                            vr_zone := Some (determine_campus_zone latitude longitude)\<rparr>)
                    else Inr (result
                           \<lparr>vr_errors := vr_errors result
                              @ [''Location is outside OAU campus boundaries'']\<rparr>))))"

section \<open>app/utils/location_utils.py\<close>

subsection \<open>\<^verbatim>\<open>LocationPoint\<close>, \<^verbatim>\<open>LocationCluster\<close>\<close>

text \<open>
  Timestamps are seconds since the epoch.  The fields \<^verbatim>\<open>last_updated\<close> and
  \<^verbatim>\<open>calculated_at\<close>, which only record the clock, are left out of the records.
\<close>

record location_point =
  lp_latitude :: real
  lp_longitude :: real
  lp_accuracy :: "real option"
  lp_timestamp :: "int option"
  lp_altitude :: "real option"
  lp_heading :: "real option"
  lp_speed :: "real option"

text \<open>A \<^verbatim>\<open>LocationUpdate\<close> row, and the role of the session it belongs to.\<close>

record loc_update =
  lu_latitude :: real
  lu_longitude :: real
  lu_timestamp :: int

datatype user_role = PASSENGER | DRIVER

record location_cluster =
  center_lat :: real
  center_lng :: real
  radius :: real
  locations :: "location_point list"
  user_count :: nat

text \<open>\<^verbatim>\<open>LocationPoint(lat, lng, timestamp=t)\<close>.\<close>

definition LocationPoint :: "real \<Rightarrow> real \<Rightarrow> int \<Rightarrow> location_point" where
  "LocationPoint lat lng t =
     \<lparr>lp_latitude = lat, lp_longitude = lng, lp_accuracy = None, lp_timestamp = Some t,
      lp_altitude = None, lp_heading = None, lp_speed = None\<rparr>"

text \<open>\<^verbatim>\<open>LocationCluster(center_lat, center_lng, radius=r)\<close>.\<close>

definition LocationCluster :: "real \<Rightarrow> real \<Rightarrow> real \<Rightarrow> location_cluster" where
  "LocationCluster lat lng r =
     \<lparr>center_lat = lat, center_lng = lng, radius = r, locations = [], user_count = 0\<rparr>"

definition add_location :: "location_cluster \<Rightarrow> location_point \<Rightarrow> location_cluster \<times> bool" where
  "add_location self location =
     (let distance = calculate_distance (lp_latitude location) (lp_longitude location)
                       (center_lat self) (center_lng self) * 1000
      in if distance \<le> radius self
         then (self\<lparr>locations := locations self @ [location],
                     user_count := user_count self + 1\<rparr>, True)
         else (self, False))"

subsection \<open>\<^verbatim>\<open>_create_location_clusters\<close>\<close>

type_synonym sample = "loc_update \<times> user_role"

text \<open>The body of the inner \<^verbatim>\<open>for j, (other_loc, other_role)\<close> loop.\<close>

definition inner_step ::
  "location_cluster \<times> nat set \<Rightarrow> nat \<times> sample \<Rightarrow> location_cluster \<times> nat set" where
  "inner_step st e =
     (let cluster = fst st; processed_locations = snd st;
          j = fst e; other_loc = fst (snd e)
      in if j \<in> processed_locations then st
         else
           (let other_point = LocationPoint (lu_latitude other_loc) (lu_longitude other_loc)
                                (lu_timestamp other_loc);
                r = add_location cluster other_point
            in if snd r then (fst r, insert j processed_locations)
               else (fst r, processed_locations)))"

text \<open>
  The body of the outer \<^verbatim>\<open>for i, (loc_update, user_role)\<close> loop; \<open>indexed\<close> is
  \<^verbatim>\<open>enumerate(location_data)\<close>, which the inner loop walks from its start.
\<close>

definition outer_step ::
  "(nat \<times> sample) list \<Rightarrow> location_cluster list \<times> nat set \<Rightarrow> nat \<times> sample
     \<Rightarrow> location_cluster list \<times> nat set" where
  "outer_step indexed st e =
     (let clusters = fst st; processed_locations = snd st;
          i = fst e; loc_update = fst (snd e)
      in if i \<in> processed_locations then st
         else
           (let cluster = LocationCluster (lu_latitude loc_update) (lu_longitude loc_update) 100;
                location_point = LocationPoint (lu_latitude loc_update) (lu_longitude loc_update)
                                   (lu_timestamp loc_update);
                cluster = fst (add_location cluster location_point);
                processed_locations = insert i processed_locations;
                inner = foldl inner_step (cluster, processed_locations) indexed;
                cluster = fst inner;
                processed_locations = snd inner
            in if 2 \<le> user_count cluster then (clusters @ [cluster], processed_locations)
               else (clusters, processed_locations)))"

definition create_location_clusters :: "sample list \<Rightarrow> location_cluster list" where
  "create_location_clusters location_data =
     (let indexed = List.enumerate 0 location_data
      in fst (foldl (outer_step indexed) ([], {}) indexed))"

text \<open>
  The clustering as the specification words it: take the samples in input order; the
  first sample still unprocessed seeds a cluster of radius 100 m centred at itself; every
  other unprocessed sample within the radius of the seed is absorbed and thereby
  processed; a cluster of fewer than 2 members is discarded.
\<close>

definition within_radius :: "loc_update \<Rightarrow> sample \<Rightarrow> bool" where
  "within_radius seed other =
     (calculate_distance (lu_latitude (fst other)) (lu_longitude (fst other))
        (lu_latitude seed) (lu_longitude seed) * 1000 \<le> 100)"

definition sample_point :: "sample \<Rightarrow> location_point" where
  "sample_point s =
     LocationPoint (lu_latitude (fst s)) (lu_longitude (fst s)) (lu_timestamp (fst s))"

definition seeded_cluster :: "sample \<Rightarrow> sample list \<Rightarrow> location_cluster" where
  "seeded_cluster seed absorbed =
     \<lparr>center_lat = lu_latitude (fst seed), center_lng = lu_longitude (fst seed),
      radius = 100, locations = map sample_point (seed # absorbed),
      user_count = length (seed # absorbed)\<rparr>"

function greedy_clusters :: "sample list \<Rightarrow> location_cluster list" where
  "greedy_clusters [] = []"
| "greedy_clusters (seed # rest) =
     (let absorbed = filter (within_radius (fst seed)) rest;
          remaining = filter (\<lambda>s. \<not> within_radius (fst seed) s) rest;
          cluster = seeded_cluster seed absorbed
      in (if 2 \<le> user_count cluster then [cluster] else []) @ greedy_clusters remaining)"
  by pat_completeness auto
termination
  by (relation "measure length") (auto simp: less_Suc_eq_le)

subsection \<open>\<^verbatim>\<open>_calculate_pickup_score\<close>\<close>

text \<open>
  The landmark dictionary handed to the scorer: \<^verbatim>\<open>landmark["distance_meters"]\<close> is
  read directly, \<^verbatim>\<open>"type"\<close> and \<^verbatim>\<open>"id"\<close> through \<^verbatim>\<open>.get\<close>.
\<close>

record pickup_landmark =
  pl_distance_meters :: real
  pl_type :: "string option"
  pl_id :: "string option"

record driver_location =
  dl_session_id :: string
  dl_distance_meters :: real

record pickup_score =
  ps_total_score :: real
  ps_distance :: real
  ps_driver_count :: nat
  ps_accessibility :: real
  ps_safety :: real
  ps_wait_time :: int

definition accessibility_scores :: "(string \<times> real) list" where
  "accessibility_scores =
     [(''entrance'', 90), (''building'', 80), (''hall'', 75), (''faculty'', 85),
      (''hostel'', 70), (''sports'', 60), (''hospital'', 95), (''library'', 85),
      (''food'', 65), (''service'', 70), (''religious'', 60)]"

definition safety_landmarks :: "string list" where
  "safety_landmarks = [''main_gate'', ''sub'', ''teaching_hospital'', ''central_library'']"

definition distance_score :: "pickup_landmark \<Rightarrow> real" where
  "distance_score landmark =
     (let distance_km = pl_distance_meters landmark / 1000
      in max 0 (100 - distance_km * 50))"

definition nearby_drivers :: "driver_location list \<Rightarrow> nat" where
  "nearby_drivers driver_locations =
     length (filter (\<lambda>driver. dl_distance_meters driver \<le> 500) driver_locations)"

definition driver_score :: "driver_location list \<Rightarrow> real" where
  "driver_score driver_locations = min 100 (real (nearby_drivers driver_locations) * 25)"

definition accessibility_score :: "pickup_landmark \<Rightarrow> real" where
  "accessibility_score landmark =
     (case map_of accessibility_scores
             (case pl_type landmark of None \<Rightarrow> ''unknown'' | Some t \<Rightarrow> t) of
        None \<Rightarrow> 50
      | Some v \<Rightarrow> v)"

definition safety_score :: "pickup_landmark \<Rightarrow> real" where
  "safety_score landmark =
     (case pl_id landmark of
        None \<Rightarrow> 70
      | Some i \<Rightarrow> if i \<in> set safety_landmarks then 90 else 70)"

definition wait_time :: "driver_location list \<Rightarrow> int" where
  "wait_time driver_locations =
     (if 0 < nearby_drivers driver_locations
      then max 2 (10 - int (nearby_drivers driver_locations) * 2)
      else 15)"

text \<open>The local \<^verbatim>\<open>total_score\<close>, before it is rounded for the result.\<close>

definition total_score :: "pickup_landmark \<Rightarrow> driver_location list \<Rightarrow> real" where
  "total_score landmark driver_locations =
     distance_score landmark * 0.3
     + driver_score driver_locations * 0.4
     + accessibility_score landmark * 0.2
     + safety_score landmark * 0.1"

definition calculate_pickup_score :: "pickup_landmark \<Rightarrow> driver_location list \<Rightarrow> pickup_score" where
  "calculate_pickup_score landmark driver_locations =
     \<lparr>ps_total_score = py_round_to 1 (total_score landmark driver_locations),
      ps_distance = pl_distance_meters landmark / 1000,
      ps_driver_count = nearby_drivers driver_locations,
      ps_accessibility = accessibility_score landmark,
      ps_safety = safety_score landmark,
      ps_wait_time = wait_time driver_locations\<rparr>"

section \<open>app/core/analytics.py\<close>

subsection \<open>Query results\<close>

text \<open>
  The result of a query is the list of its rows.  The two functions below run a query
  of two columns and read it with \<^verbatim>\<open>result.scalars().all()\<close>, which in the database
  library is the list of the first column of each row.
\<close>

definition scalars_all :: "('a \<times> 'b) list \<Rightarrow> 'a list" where
  "scalars_all rows = map fst rows"

subsection \<open>\<^verbatim>\<open>_determine_overall_bike_status\<close>\<close>

text \<open>
  \<^verbatim>\<open>class BikeAvailability(str, Enum)\<close>: each member is the string of its value.
\<close>

datatype BikeAvailability = HIGH | MEDIUM | LOW | NONE

fun availability_value :: "BikeAvailability \<Rightarrow> string" where
  "availability_value HIGH = ''high''"
| "availability_value MEDIUM = ''medium''"
| "availability_value LOW = ''low''"
| "availability_value NONE = ''none''"

record availability_stat =
  as_count :: nat
  as_percentage :: real

text \<open>The dictionary \<^verbatim>\<open>stats\<close>, as the list of its items in insertion order.\<close>

type_synonym availability_stats = "(string \<times> availability_stat) list"

text \<open>\<^verbatim>\<open>stats.get(key, {}).get("percentage", 0)\<close>.\<close>

definition stat_percentage :: "availability_stats \<Rightarrow> string \<Rightarrow> real" where
  "stat_percentage stats key =
     (case map_of stats key of None \<Rightarrow> 0 | Some e \<Rightarrow> as_percentage e)"

definition determine_overall_bike_status :: "availability_stats \<Rightarrow> string" where
  "determine_overall_bike_status stats =
     (if stats = [] then ''unknown''
      else
        (let high_percentage = stat_percentage stats ''high'';
             medium_percentage = stat_percentage stats ''medium'';
             low_percentage = stat_percentage stats ''low'';
             none_percentage = stat_percentage stats ''none''
         in if 50 \<le> high_percentage then ''excellent''
            else if 60 \<le> float_add high_percentage medium_percentage then ''good''
            else if 60 \<le> float_add low_percentage none_percentage then ''poor''
            else ''moderate''))"

text \<open>
  The four threshold rules of the specification, first match first; the sums are the
  sums of the machine.
\<close>

definition status_by_thresholds :: "real \<Rightarrow> real \<Rightarrow> real \<Rightarrow> real \<Rightarrow> string" where
  "status_by_thresholds high medium low none =
     (if 50 \<le> high then ''excellent''
      else if 60 \<le> float_add high medium then ''good''
      else if 60 \<le> float_add low none then ''poor''
      else ''moderate'')"

subsection \<open>\<^verbatim>\<open>_get_bike_availability_stats\<close>\<close>

text \<open>
  The two shapes of the result: \<^verbatim>\<open>{"status": ...}\<close> alone, or the report with
  \<^verbatim>\<open>total_reports\<close>, \<^verbatim>\<open>distribution\<close> and \<^verbatim>\<open>overall_status\<close>.
\<close>

datatype bike_report =
  StatusOnly string
| Report nat availability_stats string

text \<open>
  Unpacking a string into two names, as \<^verbatim>\<open>for _, count in ...\<close> does with an
  element that is a string: \<^verbatim>\<open>ValueError\<close> unless it has exactly two characters.
\<close>

definition unpack_two :: "string \<Rightarrow> py_error + char \<times> char" where
  "unpack_two s = (case s of [a, b] \<Rightarrow> Inr (a, b) | _ \<Rightarrow> Inl ValueError)"

text \<open>
  \<^verbatim>\<open>sum(count for _, count in availability_data)\<close>, where \<open>availability_data\<close> is
  the list of members that \<^verbatim>\<open>scalars().all()\<close> returns.  The sum starts at the int 0;
  a member that did unpack would add a character to it, a \<^verbatim>\<open>TypeError\<close>.
\<close>

fun sum_counts :: "BikeAvailability list \<Rightarrow> py_error + nat" where
  "sum_counts [] = Inr 0"
| "sum_counts (availability # rest) =
     (case unpack_two (availability_value availability) of
        Inl e \<Rightarrow> Inl e
      | Inr _ \<Rightarrow> Inl TypeError)"

text \<open>
  \<^verbatim>\<open>for availability, count in availability_data: stats[...] = {...}\<close>: the same
  unpacking; the percentage of a member that did unpack would divide a character by an
  int, a \<^verbatim>\<open>TypeError\<close>.
\<close>

fun fill_stats :: "BikeAvailability list \<Rightarrow> py_error + availability_stats" where
  "fill_stats [] = Inr []"
| "fill_stats (availability # rest) =
     (case unpack_two (availability_value availability) of
        Inl e \<Rightarrow> Inl e
      | Inr _ \<Rightarrow> Inl TypeError)"

text \<open>
  \<open>rows\<close> is the result of the grouped query over the last ten minutes, one row
  \<^verbatim>\<open>(bike_availability, count)\<close> for each availability reported.
\<close>

definition get_bike_availability_stats ::
  "(BikeAvailability \<times> nat) list \<Rightarrow> py_error + bike_report" where
  "get_bike_availability_stats rows =
     (let availability_data = scalars_all rows
      in case sum_counts availability_data of
           Inl e \<Rightarrow> Inl e
         | Inr total_reports \<Rightarrow>
             if total_reports = 0 then Inr (StatusOnly ''no_recent_data'')
             else
               (case fill_stats availability_data of
                  Inl e \<Rightarrow> Inl e
                | Inr stats \<Rightarrow>
                    Inr (Report total_reports stats (determine_overall_bike_status stats))))"

subsection \<open>\<^verbatim>\<open>_analyze_hourly_demand\<close>\<close>

text \<open>
  Python's \<^verbatim>\<open>max(items, key=...)\<close> and \<^verbatim>\<open>min(items, key=...)\<close>: the first item
  with the greatest (least) key; \<^verbatim>\<open>ValueError\<close> on an empty sequence.
\<close>

fun first_max_by :: "('a \<Rightarrow> 'b::linorder) \<Rightarrow> 'a \<Rightarrow> 'a list \<Rightarrow> 'a" where
  "first_max_by key best [] = best"
| "first_max_by key best (x # xs) = first_max_by key (if key best < key x then x else best) xs"

fun first_min_by :: "('a \<Rightarrow> 'b::linorder) \<Rightarrow> 'a \<Rightarrow> 'a list \<Rightarrow> 'a" where
  "first_min_by key best [] = best"
| "first_min_by key best (x # xs) = first_min_by key (if key x < key best then x else best) xs"

definition py_max :: "('a \<Rightarrow> 'b::linorder) \<Rightarrow> 'a list \<Rightarrow> py_error + 'a" where
  "py_max key xs = (case xs of [] \<Rightarrow> Inl ValueError | x # rest \<Rightarrow> Inr (first_max_by key x rest))"

definition py_min :: "('a \<Rightarrow> 'b::linorder) \<Rightarrow> 'a list \<Rightarrow> py_error + 'a" where
  "py_min key xs = (case xs of [] \<Rightarrow> Inl ValueError | x # rest \<Rightarrow> Inr (first_min_by key x rest))"

record hourly_demand =
  hourly_distribution :: "(int \<times> nat) list"
  peak_hour :: int
  lowest_hour :: int
  average_hourly :: real

text \<open>
  \<^verbatim>\<open>{int(hour): count for hour, count in passenger_result.scalars().all()}\<close>, on the
  list of hours that \<^verbatim>\<open>scalars().all()\<close> returns.  The comprehension unpacks each
  element into \<^verbatim>\<open>hour, count\<close>; an element is a number, which cannot be unpacked:
  \<^verbatim>\<open>TypeError\<close> at the first one.
\<close>

fun hourly_data :: "real list \<Rightarrow> py_error + (int \<rightharpoonup> nat)" where
  "hourly_data [] = Inr Map.empty"
| "hourly_data (hour # rest) = Inl TypeError"

text \<open>
  \<^verbatim>\<open>{hour: hourly_data.get(hour, 0) for hour in range(24)}\<close>, as the list of its
  items.
\<close>

definition complete_hourly :: "(int \<rightharpoonup> nat) \<Rightarrow> (int \<times> nat) list" where
  "complete_hourly data =
     map (\<lambda>hour. (hour, case data hour of None \<Rightarrow> 0 | Some c \<Rightarrow> c)) [0..23]"

text \<open>The rest of the function, from the dictionary \<^verbatim>\<open>hourly_data\<close> on.\<close>

definition hourly_report :: "(int \<rightharpoonup> nat) \<Rightarrow> py_error + hourly_demand" where
  "hourly_report data =
     (let complete = complete_hourly data
      in case py_max snd complete of
           Inl e \<Rightarrow> Inl e
         | Inr hi \<Rightarrow>
             (case py_min snd complete of
                Inl e \<Rightarrow> Inl e
              | Inr lo \<Rightarrow>
                  Inr \<lparr>hourly_distribution = complete,
                       peak_hour = fst hi,
                       lowest_hour = fst lo,
                       average_hourly = float_div (real (sum_list (map snd complete))) 24\<rparr>))"

text \<open>
  \<open>rows\<close> is the result of the grouped query over the passenger sessions of the
  period, one row \<^verbatim>\<open>(hour, passenger_count)\<close> for each hour that has sessions.
\<close>

definition analyze_hourly_demand :: "(real \<times> nat) list \<Rightarrow> py_error + hourly_demand" where
  "analyze_hourly_demand rows =
     (case hourly_data (scalars_all rows) of
        Inl e \<Rightarrow> Inl e
      | Inr data \<Rightarrow> hourly_report data)"

text \<open>\<^verbatim>\<open>distribution[hour]\<close>, where the distribution has the key.\<close>

definition demand_at :: "(int \<times> nat) list \<Rightarrow> int \<Rightarrow> nat option" where
  "demand_at distribution hour = map_of distribution hour"

section \<open>Properties of the numbers\<close>

lemma py_round_of_int: "py_round (of_int m) = m"
  by (simp add: py_round_def)

lemma py_int_of_int: "py_int (of_int m) = m"
  by (simp add: py_int_def)

lemma py_round_bounds: "of_int (py_round x) \<le> x + 1 / 2 \<and> x - 1 / 2 \<le> of_int (py_round x)"
  unfolding py_round_def Let_def by (auto; linarith)

lemma py_round_mono: "x \<le> y \<Longrightarrow> py_round x \<le> py_round y"
proof -
  assume le: "x \<le> y"
  have fl: "\<lfloor>x\<rfloor> \<le> \<lfloor>y\<rfloor>" using le by (rule floor_mono)
  show ?thesis
  proof (cases "\<lfloor>x\<rfloor> = \<lfloor>y\<rfloor>")
    case True
    then have "x - of_int \<lfloor>x\<rfloor> \<le> y - of_int \<lfloor>y\<rfloor>" using le by simp
    then show ?thesis
      unfolding py_round_def Let_def using True by auto
  next
    case False
    then have "\<lfloor>x\<rfloor> + 1 \<le> \<lfloor>y\<rfloor>" using fl by linarith
    moreover have "py_round x \<le> \<lfloor>x\<rfloor> + 1" by (simp add: py_round_def Let_def)
    moreover have "\<lfloor>y\<rfloor> \<le> py_round y" by (simp add: py_round_def Let_def)
    ultimately show ?thesis by linarith
  qed
qed

lemma py_round_to_mono: "x \<le> y \<Longrightarrow> py_round_to n x \<le> py_round_to n y"
proof -
  assume "x \<le> y"
  then have "x * 10 ^ n \<le> y * 10 ^ n" by (simp add: mult_right_mono)
  then have "py_round (x * 10 ^ n) \<le> py_round (y * 10 ^ n)" by (rule py_round_mono)
  then show ?thesis by (simp add: py_round_to_def divide_right_mono)
qed

lemma py_round_to_0: "py_round_to n 0 = 0"
  by (simp add: py_round_to_def py_round_def)

lemma py_round_to_1: "py_round_to n 1 = 1"
proof -
  have "(10::real) ^ n = of_int (10 ^ n)" by simp
  then have "py_round (1 * 10 ^ n) = 10 ^ n"
    by (simp only: mult_1 py_round_of_int)
  then show ?thesis by (simp add: py_round_to_def)
qed

lemma pi_ge_three: "3 \<le> pi"
proof -
  have "sin (pi / 6) \<le> pi / 6" by (rule sin_x_le_x) simp
  then show ?thesis by (simp add: sin_30)
qed

text \<open>
  Rounding to the nearest integer, a tie to the even one, falls below an even integer
  \<open>n\<close> exactly below \<open>n - 1/2\<close>.
\<close>

lemma py_round_less_even:
  assumes "even n"
  shows "py_round x < n \<longleftrightarrow> x < of_int n - 1 / 2"
proof
  assume lt: "py_round x < n"
  show "x < of_int n - 1 / 2"
  proof (rule ccontr)
    assume "\<not> x < of_int n - 1 / 2"
    then have "py_round (of_int n - 1 / 2) \<le> py_round x"
      by (intro py_round_mono) simp
    moreover have "\<lfloor>of_int n - 1 / 2 :: real\<rfloor> = n - 1" by linarith
    then have "py_round (of_int n - 1 / 2) = n"
      using assms by (simp add: py_round_def Let_def)
    ultimately show False using lt by simp
  qed
next
  assume lt: "x < of_int n - 1 / 2"
  then have f: "\<lfloor>x\<rfloor> \<le> n - 1" by linarith
  show "py_round x < n"
  proof (cases "\<lfloor>x\<rfloor> = n - 1")
    case True
    then have "x - of_int \<lfloor>x\<rfloor> < 1 / 2" using lt by simp
    then have "py_round x = \<lfloor>x\<rfloor>" by (simp add: py_round_def Let_def)
    then show ?thesis using True by simp
  next
    case False
    then have "\<lfloor>x\<rfloor> + 1 < n" using f by linarith
    moreover have "py_round x \<le> \<lfloor>x\<rfloor> + 1" by (simp add: py_round_def Let_def)
    ultimately show ?thesis by linarith
  qed
qed

lemma py_round_less_50: "py_round x < 50 \<longleftrightarrow> x < 49.5"
  using py_round_less_even [of 50 x] by simp

lemma py_round_less_200: "py_round x < 200 \<longleftrightarrow> x < 199.5"
  using py_round_less_even [of 200 x] by simp

lemma binary64_0: "binary64 0 = 0"
  by (simp add: binary64_def)

text \<open>An integer below \<open>2\<^sup>5\<^sup>3\<close> in absolute value is a float.\<close>

lemma binary64_of_int:
  assumes "\<bar>n\<bar> < 2 ^ 53"
  shows "binary64 (of_int n) = of_int n"
proof (cases "n = 0")
  case True
  then show ?thesis by (simp add: binary64_def)
next
  case False
  define x :: real where "x = of_int n"
  define e where "e = \<lfloor>log 2 \<bar>x\<bar>\<rfloor>"
  have x1: "1 \<le> \<bar>x\<bar>" using False unfolding x_def by (simp flip: of_int_abs)
  have "\<bar>x\<bar> < of_int (2 ^ 53)"
    unfolding x_def using assms by (simp only: of_int_abs [symmetric] of_int_less_iff)
  then have x2: "\<bar>x\<bar> < 2 powr 53" by simp
  have "0 \<le> log 2 \<bar>x\<bar>" using x1 by simp
  then have e0: "0 \<le> e" by (simp add: e_def)
  have "log 2 \<bar>x\<bar> < 53" using x1 x2 by (subst log_less_iff) auto
  then have e1: "e \<le> 52" unfolding e_def by linarith
  define k where "k = nat (52 - e)"
  have ke: "(of_int e :: real) - 52 = - real k" using e1 by (simp add: k_def)
  have ulp: "(2::real) powr (of_int e - 52) = 1 / 2 ^ k"
    unfolding ke by (simp add: powr_minus powr_realpow divide_simps)
  have "x / (1 / 2 ^ k) = of_int (n * 2 ^ k)" by (simp add: x_def)
  then have "py_round (x / (1 / 2 ^ k)) = n * 2 ^ k" by (simp only: py_round_of_int)
  then have "of_int (py_round (x / (1 / 2 ^ k))) * (1 / 2 ^ k) = x"
    by (simp add: x_def)
  moreover have "max e (- 1022) = e" using e0 by simp
  moreover have "x \<noteq> 0" using x1 by auto
  ultimately show ?thesis
    unfolding binary64_def Let_def x_def [symmetric] e_def [symmetric]
    by (simp add: ulp)
qed

lemma float_add_exact_examples: "float_add 0 0 = 0 \<and> float_add 40 30 = 70 \<and> float_add 60 0 = 60"
proof -
  have "binary64 (of_int 70) = of_int 70" by (rule binary64_of_int) simp
  moreover have "binary64 (of_int 60) = of_int 60" by (rule binary64_of_int) simp
  ultimately show ?thesis by (simp add: float_add_def binary64_0)
qed

section \<open>Properties of the distance\<close>

lemma radians_0: "radians 0 = 0"
  by (simp add: radians_def)

lemma haversine_a_sym: "haversine_a lat1 lon1 lat2 lon2 = haversine_a lat2 lon2 lat1 lon1"
proof -
  have s: "(sin ((x - y) / 2))\<^sup>2 = (sin ((y - x) / 2))\<^sup>2" for x y :: real
  proof -
    have "(x - y) / 2 = - ((y - x) / 2)" by argo
    then have "sin ((x - y) / 2) = - sin ((y - x) / 2)"
      by (metis sin_minus)
    then show ?thesis by simp
  qed
  show ?thesis
    unfolding haversine_a_def Let_def
    by (simp add: s [of lat2 lat1] s [of lon2 lon1] mult.commute)
qed

lemma haversine_a_self: "haversine_a lat lon lat lon = 0"
  by (simp add: haversine_a_def)

lemma calculate_distance_sym:
  "calculate_distance lat1 lon1 lat2 lon2 = calculate_distance lat2 lon2 lat1 lon1"
  unfolding calculate_distance_def Let_def
  by (simp add: haversine_a_sym [of "radians lat1" "radians lon1"])

lemma calculate_distance_self: "calculate_distance lat lon lat lon = 0"
  unfolding calculate_distance_def Let_def
  by (simp add: haversine_a_self)

lemma sin_half_sq: "(sin (x / 2))\<^sup>2 = (1 - cos x) / 2" for x :: real
  using cos_double_sin [of "x / 2"] by simp

lemma haversine_a_dot:
  "haversine_a lat1 lon1 lat2 lon2 = (1 - sphere_dot lat1 lon1 lat2 lon2) / 2"
proof -
  have "haversine_a lat1 lon1 lat2 lon2 =
      (1 - cos (lat2 - lat1)) / 2 + cos lat1 * cos lat2 * ((1 - cos (lon2 - lon1)) / 2)"
    unfolding haversine_a_def Let_def sin_half_sq by (rule refl)
  also have "cos (lat2 - lat1) = cos lat2 * cos lat1 + sin lat2 * sin lat1"
    by (rule cos_diff)
  finally show ?thesis
    unfolding sphere_dot_def by (simp add: field_simps)
qed

lemma sphere_dot_bounds:
  "- 1 \<le> sphere_dot lat1 lon1 lat2 lon2 \<and> sphere_dot lat1 lon1 lat2 lon2 \<le> 1"
proof -
  define c where "c = cos (lon2 - lon1)"
  define p where "p = cos (lat1 - lat2)"
  define q where "q = cos (lat1 + lat2)"
  have c: "- 1 \<le> c" "c \<le> 1" by (simp_all add: c_def)
  have p: "- 1 \<le> p" "p \<le> 1" by (simp_all add: p_def)
  have q: "- 1 \<le> q" "q \<le> 1" by (simp_all add: q_def)
  have eq: "sphere_dot lat1 lon1 lat2 lon2 = ((1 + c) * p - (1 - c) * q) / 2"
    unfolding sphere_dot_def c_def p_def q_def
    by (simp add: cos_diff cos_add algebra_simps)
  have 1: "(1 + c) * p \<le> (1 + c) * 1" using c p by (intro mult_left_mono) auto
  have 2: "(1 + c) * (- 1) \<le> (1 + c) * p" using c p by (intro mult_left_mono) auto
  have 3: "(1 - c) * q \<le> (1 - c) * 1" using c q by (intro mult_left_mono) auto
  have 4: "(1 - c) * (- 1) \<le> (1 - c) * q" using c q by (intro mult_left_mono) auto
  show ?thesis unfolding eq using 1 2 3 4 by simp
qed

lemma haversine_a_range:
  "0 \<le> haversine_a lat1 lon1 lat2 lon2 \<and> haversine_a lat1 lon1 lat2 lon2 \<le> 1"
  using sphere_dot_bounds [of lat1 lon1 lat2 lon2] by (simp add: haversine_a_dot)

lemma arcsin_half_angle:
  assumes "- 1 \<le> t" "t \<le> 1"
  shows "2 * arcsin (sqrt ((1 - t) / 2)) = arccos t"
proof -
  define th where "th = arccos t"
  have th: "0 \<le> th" "th \<le> pi" and t: "t = cos th"
    using assms by (simp_all add: th_def arccos_lbound arccos_ubound)
  have "(1 - t) / 2 = (sin (th / 2))\<^sup>2" by (simp add: sin_half_sq t)
  moreover have "0 \<le> sin (th / 2)" using th by (intro sin_ge_zero) auto
  ultimately have "sqrt ((1 - t) / 2) = sin (th / 2)" by simp
  moreover have "arcsin (sin (th / 2)) = th / 2"
    using th by (intro arcsin_sin) auto
  ultimately show ?thesis by (simp add: th_def)
qed

lemma calculate_distance_arccos:
  "calculate_distance lat1 lon1 lat2 lon2 =
     6371 * arccos (sphere_dot (radians lat1) (radians lon1) (radians lat2) (radians lon2))"
  unfolding calculate_distance_def Let_def haversine_a_dot
  using sphere_dot_bounds [of "radians lat1" "radians lon1" "radians lat2" "radians lon2"]
  by (simp add: arcsin_half_angle)

lemma calculate_distance_nonneg: "0 \<le> calculate_distance lat1 lon1 lat2 lon2"
  unfolding calculate_distance_arccos
  using sphere_dot_bounds [of "radians lat1" "radians lon1" "radians lat2" "radians lon2"]
  by (simp add: arccos_lbound)

text \<open>
  In exact arithmetic the distance obeys the triangle inequality, since it is 6371 times
  the angle between two unit vectors.  The floats of the program need not: a sum of two
  rounded segments can fall short of the rounded direct distance by a unit in the last
  place.
\<close>

lemma gram_determinant:
  fixes x1 y1 z1 x2 y2 z2 x3 y3 z3 :: real
  assumes n1: "x1 * x1 + y1 * y1 + z1 * z1 = 1"
    and n2: "x2 * x2 + y2 * y2 + z2 * z2 = 1"
    and n3: "x3 * x3 + y3 * y3 + z3 * z3 = 1"
    and a: "a = x1 * x2 + y1 * y2 + z1 * z2"
    and b: "b = x2 * x3 + y2 * y3 + z2 * z3"
    and c: "c = x1 * x3 + y1 * y3 + z1 * z3"
  shows "(a * b - c)\<^sup>2 \<le> (1 - a\<^sup>2) * (1 - b\<^sup>2)"
proof -
  define d where "d = x1 * (y2 * z3 - z2 * y3) - y1 * (x2 * z3 - z2 * x3) + z1 * (x2 * y3 - y2 * x3)"
  have "(x1 * x1 + y1 * y1 + z1 * z1) * (x2 * x2 + y2 * y2 + z2 * z2) * (x3 * x3 + y3 * y3 + z3 * z3)
        + 2 * a * b * c
        - (x1 * x1 + y1 * y1 + z1 * z1) * b\<^sup>2
        - (x2 * x2 + y2 * y2 + z2 * z2) * c\<^sup>2
        - (x3 * x3 + y3 * y3 + z3 * z3) * a\<^sup>2 = d\<^sup>2"
    unfolding a b c d_def by (simp add: power2_eq_square algebra_simps)
  then have "1 + 2 * a * b * c - b\<^sup>2 - c\<^sup>2 - a\<^sup>2 = d\<^sup>2"
    by (simp add: n1 n2 n3)
  moreover have "(1 - a\<^sup>2) * (1 - b\<^sup>2) - (a * b - c)\<^sup>2 = 1 + 2 * a * b * c - b\<^sup>2 - c\<^sup>2 - a\<^sup>2"
    by (simp add: power2_eq_square algebra_simps)
  moreover have "0 \<le> d\<^sup>2" by simp
  ultimately show ?thesis by linarith
qed

lemma arccos_triangle:
  fixes a b c :: real
  assumes a: "- 1 \<le> a" "a \<le> 1" and b: "- 1 \<le> b" "b \<le> 1" and c: "- 1 \<le> c" "c \<le> 1"
    and g: "(a * b - c)\<^sup>2 \<le> (1 - a\<^sup>2) * (1 - b\<^sup>2)"
  shows "arccos c \<le> arccos a + arccos b"
proof (cases "arccos a + arccos b \<le> pi")
  case False
  then show ?thesis using arccos_ubound [OF c] by linarith
next
  case True
  have nn: "0 \<le> arccos a" "0 \<le> arccos b"
    using a b by (simp_all add: arccos_lbound)
  have abs_a: "\<bar>a\<bar> \<le> 1" and abs_b: "\<bar>b\<bar> \<le> 1" using a b by auto
  have "a * b - c \<le> \<bar>a * b - c\<bar>" by simp
  also have "\<dots> = sqrt ((a * b - c)\<^sup>2)" by simp
  also have "\<dots> \<le> sqrt ((1 - a\<^sup>2) * (1 - b\<^sup>2))"
    using g by (rule real_sqrt_le_mono)
  also have "\<dots> = sin (arccos a) * sin (arccos b)"
    by (simp add: sin_arccos_abs [OF abs_a] sin_arccos_abs [OF abs_b] real_sqrt_mult)
  finally have "a * b - sin (arccos a) * sin (arccos b) \<le> c" by linarith
  then have le: "cos (arccos a + arccos b) \<le> c"
    using a b by (simp add: cos_add)
  have "arccos c \<le> arccos (cos (arccos a + arccos b))"
    using le c by (intro arccos_le_arccos) auto
  also have "\<dots> = arccos a + arccos b"
    using nn True by (intro arccos_cos) auto
  finally show ?thesis .
qed

lemma sphere_dot_vec:
  "sphere_dot lat1 lon1 lat2 lon2 =
     (cos lat1 * cos lon1) * (cos lat2 * cos lon2)
     + (cos lat1 * sin lon1) * (cos lat2 * sin lon2)
     + sin lat1 * sin lat2"
  unfolding sphere_dot_def by (simp add: cos_diff algebra_simps)

lemma unit_vec:
  "(cos lat * cos lon) * (cos lat * cos lon) + (cos lat * sin lon) * (cos lat * sin lon)
     + sin lat * sin lat = (1::real)"
proof -
  have "(cos lat * cos lon) * (cos lat * cos lon) + (cos lat * sin lon) * (cos lat * sin lon)
     + sin lat * sin lat
     = (cos lat * cos lat) * (cos lon * cos lon + sin lon * sin lon) + sin lat * sin lat"
    by (simp only: distrib_left mult_ac)
  also have "\<dots> = 1"
    by (simp only: sin_cos_squared_add3 mult_1_right)
  finally show ?thesis .
qed

lemma sphere_dot_triangle:
  "arccos (sphere_dot lat1 lon1 lat3 lon3)
     \<le> arccos (sphere_dot lat1 lon1 lat2 lon2) + arccos (sphere_dot lat2 lon2 lat3 lon3)"
proof -
  have g: "(sphere_dot lat1 lon1 lat2 lon2 * sphere_dot lat2 lon2 lat3 lon3
             - sphere_dot lat1 lon1 lat3 lon3)\<^sup>2
          \<le> (1 - (sphere_dot lat1 lon1 lat2 lon2)\<^sup>2) * (1 - (sphere_dot lat2 lon2 lat3 lon3)\<^sup>2)"
    by (rule gram_determinant [OF unit_vec [of lat1 lon1] unit_vec [of lat2 lon2]
          unit_vec [of lat3 lon3]])
       (simp_all only: sphere_dot_vec)
  show ?thesis
    using sphere_dot_bounds [of lat1 lon1 lat2 lon2] sphere_dot_bounds [of lat2 lon2 lat3 lon3]
      sphere_dot_bounds [of lat1 lon1 lat3 lon3] g
    by (intro arccos_triangle) auto
qed

lemma calculate_distance_triangle:
  "calculate_distance lat1 lon1 lat3 lon3
     \<le> calculate_distance lat1 lon1 lat2 lon2 + calculate_distance lat2 lon2 lat3 lon3"
  unfolding calculate_distance_arccos
  using sphere_dot_triangle [of "radians lat1" "radians lon1" "radians lat3" "radians lon3"
      "radians lat2" "radians lon2"]
  by simp

lemma radians_diff: "radians x - radians y = radians (x - y)"
  by (simp add: radians_def algebra_simps)

lemma radians_abs: "\<bar>radians x\<bar> = radians \<bar>x\<bar>"
  by (simp add: radians_def abs_mult)

lemma radians_mono: "x \<le> y \<Longrightarrow> radians x \<le> radians y"
  by (simp add: radians_def)

lemma radians_strict_mono: "x < y \<Longrightarrow> radians x < radians y"
  by (simp add: radians_def)

lemma radians_90: "radians 90 = pi / 2"
  by (simp add: radians_def)

lemma radians_180: "radians 180 = pi"
  by (simp add: radians_def)

lemma radians_360: "radians 360 = 2 * pi"
  by (simp add: radians_def)

lemma abs_sin_eq: "\<bar>x\<bar> \<le> pi \<Longrightarrow> \<bar>sin x\<bar> = sin \<bar>x\<bar>" for x :: real
proof (cases "0 \<le> x")
  case True
  assume "\<bar>x\<bar> \<le> pi"
  with True have "0 \<le> sin x" by (intro sin_ge_zero) auto
  with True show ?thesis by simp
next
  case False
  assume "\<bar>x\<bar> \<le> pi"
  with False have "0 \<le> sin (- x)" by (intro sin_ge_zero) auto
  with False show ?thesis by simp
qed

lemma arcsin_abs_sin: "\<bar>x\<bar> \<le> pi / 2 \<Longrightarrow> arcsin \<bar>sin x\<bar> = \<bar>x\<bar>" for x :: real
proof -
  assume a: "\<bar>x\<bar> \<le> pi / 2"
  have "\<bar>x\<bar> \<le> pi" using a pi_ge_two by linarith
  then have "\<bar>sin x\<bar> = sin \<bar>x\<bar>" by (rule abs_sin_eq)
  moreover have "arcsin (sin \<bar>x\<bar>) = \<bar>x\<bar>"
    using a by (intro arcsin_sin) auto
  ultimately show ?thesis by simp
qed

lemma sin_zero_small: "\<bar>x\<bar> < pi \<Longrightarrow> sin x = 0 \<Longrightarrow> x = 0" for x :: real
proof (rule ccontr)
  assume a: "\<bar>x\<bar> < pi" and z: "sin x = 0" and n: "x \<noteq> 0"
  have "0 < \<bar>x\<bar>" using n by simp
  then have "0 < sin \<bar>x\<bar>" using a by (intro sin_gt_zero) auto
  moreover have "\<bar>sin x\<bar> = sin \<bar>x\<bar>" using a by (intro abs_sin_eq) auto
  ultimately have "0 < \<bar>sin x\<bar>" by linarith
  then show False using z by simp
qed

lemma calculate_distance_same_lon:
  assumes "\<bar>lat2 - lat1\<bar> \<le> 180"
  shows "calculate_distance lat1 lon lat2 lon = 6371 * radians \<bar>lat2 - lat1\<bar>"
proof -
  define x where "x = radians (lat2 - lat1) / 2"
  have "radians \<bar>lat2 - lat1\<bar> \<le> radians 180" using assms by (rule radians_mono)
  then have x: "\<bar>x\<bar> \<le> pi / 2"
    by (simp add: x_def radians_abs radians_180)
  have "haversine_a (radians lat1) (radians lon) (radians lat2) (radians lon) = (sin x)\<^sup>2"
    by (simp add: haversine_a_def x_def radians_diff)
  then have "calculate_distance lat1 lon lat2 lon = 6371 * (2 * arcsin \<bar>sin x\<bar>)"
    by (simp add: calculate_distance_def Let_def)
  also have "\<dots> = 6371 * (2 * \<bar>x\<bar>)" by (simp only: arcsin_abs_sin [OF x])
  also have "2 * \<bar>x\<bar> = radians \<bar>lat2 - lat1\<bar>"
    by (simp add: x_def radians_abs)
  finally show ?thesis .
qed

lemma calculate_distance_ge_lat:
  assumes l1: "\<bar>lat1\<bar> \<le> 90" and l2: "\<bar>lat2\<bar> \<le> 90"
  shows "6371 * radians \<bar>lat2 - lat1\<bar> \<le> calculate_distance lat1 lon1 lat2 lon2"
proof -
  define x where "x = radians (lat2 - lat1) / 2"
  define a where "a = haversine_a (radians lat1) (radians lon1) (radians lat2) (radians lon2)"
  have r1: "\<bar>radians lat1\<bar> \<le> pi / 2"
    using radians_mono [OF l1] by (simp add: radians_abs radians_90)
  have r2: "\<bar>radians lat2\<bar> \<le> pi / 2"
    using radians_mono [OF l2] by (simp add: radians_abs radians_90)
  have "\<bar>lat2 - lat1\<bar> \<le> 180" using l1 l2 by linarith
  then have "radians \<bar>lat2 - lat1\<bar> \<le> radians 180" by (rule radians_mono)
  then have x: "\<bar>x\<bar> \<le> pi / 2"
    by (simp add: x_def radians_abs radians_180)
  have c1: "0 \<le> cos (radians lat1)" using r1 by (intro cos_ge_zero) auto
  have c2: "0 \<le> cos (radians lat2)" using r2 by (intro cos_ge_zero) auto
  have "0 \<le> cos (radians lat1) * cos (radians lat2) * (sin ((radians lon2 - radians lon1) / 2))\<^sup>2"
    using c1 c2 by simp
  then have lo: "(sin x)\<^sup>2 \<le> a"
    by (simp add: a_def haversine_a_def x_def radians_diff)
  have hi: "a \<le> 1" and nn: "0 \<le> a"
    using haversine_a_range [of "radians lat1" "radians lon1" "radians lat2" "radians lon2"]
    by (simp_all add: a_def)
  have "\<bar>sin x\<bar> = sqrt ((sin x)\<^sup>2)" by simp
  also have "\<dots> \<le> sqrt a" using lo by (rule real_sqrt_le_mono)
  finally have s: "\<bar>sin x\<bar> \<le> sqrt a" .
  have s1: "sqrt a \<le> 1" using hi by simp
  have "arcsin \<bar>sin x\<bar> \<le> arcsin (sqrt a)"
    using s s1 nn by (subst arcsin_le_mono) auto
  then have "\<bar>x\<bar> \<le> arcsin (sqrt a)" by (simp only: arcsin_abs_sin [OF x])
  moreover have "radians \<bar>lat2 - lat1\<bar> = 2 * \<bar>x\<bar>" by (simp add: x_def radians_abs)
  moreover have "calculate_distance lat1 lon1 lat2 lon2 = 6371 * (2 * arcsin (sqrt a))"
    by (simp add: calculate_distance_def Let_def a_def)
  ultimately show ?thesis by simp
qed

lemma calculate_distance_zero_iff:
  assumes l1: "\<bar>lat1\<bar> < 90" and l2: "\<bar>lat2\<bar> < 90" and dl: "\<bar>lon2 - lon1\<bar> < 360"
  shows "calculate_distance lat1 lon1 lat2 lon2 = 0 \<longleftrightarrow> lat1 = lat2 \<and> lon1 = lon2"
proof
  assume "lat1 = lat2 \<and> lon1 = lon2"
  then show "calculate_distance lat1 lon1 lat2 lon2 = 0"
    by (simp add: calculate_distance_self)
next
  assume z: "calculate_distance lat1 lon1 lat2 lon2 = 0"
  define a where "a = haversine_a (radians lat1) (radians lon1) (radians lat2) (radians lon2)"
  define x where "x = radians (lat2 - lat1) / 2"
  define y where "y = radians (lon2 - lon1) / 2"
  have hi: "a \<le> 1" and nn: "0 \<le> a"
    using haversine_a_range [of "radians lat1" "radians lon1" "radians lat2" "radians lon2"]
    by (simp_all add: a_def)
  have "arcsin (sqrt a) = arcsin 0"
    using z by (simp add: calculate_distance_def Let_def a_def)
  then have "sqrt a = 0"
    using hi nn by (subst (asm) arcsin_eq_iff) auto
  then have a0: "a = 0" by simp
  have r1: "\<bar>radians lat1\<bar> < pi / 2"
    using radians_strict_mono [OF l1] by (simp add: radians_abs radians_90)
  have r2: "\<bar>radians lat2\<bar> < pi / 2"
    using radians_strict_mono [OF l2] by (simp add: radians_abs radians_90)
  have c1: "0 < cos (radians lat1)" using r1 by (intro cos_gt_zero_pi) auto
  have c2: "0 < cos (radians lat2)" using r2 by (intro cos_gt_zero_pi) auto
  have c: "0 < cos (radians lat1) * cos (radians lat2)" using c1 c2 by simp
  have aeq: "a = (sin x)\<^sup>2 + cos (radians lat1) * cos (radians lat2) * (sin y)\<^sup>2"
    by (simp add: a_def haversine_a_def x_def y_def radians_diff)
  have t1: "0 \<le> (sin x)\<^sup>2" by simp
  have t2: "0 \<le> cos (radians lat1) * cos (radians lat2) * (sin y)\<^sup>2"
    using c by simp
  have "(sin x)\<^sup>2 = 0" and p0: "cos (radians lat1) * cos (radians lat2) * (sin y)\<^sup>2 = 0"
    using a0 aeq t1 t2 by linarith+
  then have sx: "sin x = 0" by simp
  have sy: "sin y = 0" using p0 c1 c2 by auto
  have "\<bar>lat2 - lat1\<bar> < 180" using l1 l2 by linarith
  then have "radians \<bar>lat2 - lat1\<bar> < radians 180" by (rule radians_strict_mono)
  then have "radians \<bar>lat2 - lat1\<bar> < pi" by (simp add: radians_180)
  moreover have "\<bar>x\<bar> = radians \<bar>lat2 - lat1\<bar> / 2" by (simp add: x_def radians_abs)
  ultimately have "\<bar>x\<bar> < pi" using pi_gt_zero by linarith
  then have "x = 0" using sx by (rule sin_zero_small)
  moreover have "radians \<bar>lon2 - lon1\<bar> < radians 360" using dl by (rule radians_strict_mono)
  then have "\<bar>y\<bar> < pi" by (simp add: y_def radians_abs radians_360)
  then have "y = 0" using sy by (rule sin_zero_small)
  ultimately show "lat1 = lat2 \<and> lon1 = lon2"
    by (simp add: x_def y_def radians_def)
qed

text \<open>
  C3.  The distance is symmetric in its two points, it is 0 from a point to itself, and
  it is the haversine great-circle formula on a sphere of radius 6371 (kilometres),
  applied to the coordinates converted from degrees to radians: 6371 times the central
  angle between the two points.
\<close>

theorem C3_distance_symmetric_zero_haversine:
  "calculate_distance lat1 lon1 lat2 lon2 = calculate_distance lat2 lon2 lat1 lon1
   \<and> calculate_distance lat1 lon1 lat1 lon1 = 0
   \<and> calculate_distance lat1 lon1 lat2 lon2 =
       haversine_spec 6371 (radians lat1) (radians lon1) (radians lat2) (radians lon2)
   \<and> calculate_distance lat1 lon1 lat2 lon2 =
       6371 * arccos (sphere_dot (radians lat1) (radians lon1) (radians lat2) (radians lon2))"
proof (intro conjI)
  show "calculate_distance lat1 lon1 lat2 lon2 = calculate_distance lat2 lon2 lat1 lon1"
    by (rule calculate_distance_sym)
  show "calculate_distance lat1 lon1 lat1 lon1 = 0"
    by (rule calculate_distance_self)
  show "calculate_distance lat1 lon1 lat2 lon2 =
       haversine_spec 6371 (radians lat1) (radians lon1) (radians lat2) (radians lon2)"
    by (simp add: calculate_distance_def haversine_spec_def haversine_a_def hav_def Let_def)
  show "calculate_distance lat1 lon1 lat2 lon2 =
       6371 * arccos (sphere_dot (radians lat1) (radians lon1) (radians lat2) (radians lon2))"
    by (rule calculate_distance_arccos)
qed

section \<open>Properties of the zones\<close>

lemma determine_campus_zone_first_match:
  "determine_campus_zone latitude longitude = resolve_zone_spec latitude longitude"
  unfolding determine_campus_zone_def resolve_zone_spec_def zone_definitions_def
  by (simp only: first_zone.simps zone_contains_def zone_rect.simps)

lemma determine_campus_zone_origin: "determine_campus_zone 0 0 = ''General Campus Area''"
  by (simp add: determine_campus_zone_def)

text \<open>
  C5.  \<^verbatim>\<open>determine_campus_zone\<close> returns the name of the first rectangle, in the order
  Academic, Student Residential, Medical, Sports & Recreation, that contains the point,
  and the catch-all name when none does; at (0, 0) it returns the catch-all
  ``General Campus Area''.
\<close>

theorem C5_zone_first_match_in_priority_order:
  "determine_campus_zone latitude longitude = first_zone latitude longitude zone_definitions
   \<and> map zone_name zone_definitions =
       [''Academic Zone'', ''Student Residential Zone'', ''Medical Zone'',
        ''Sports & Recreation Zone'']
   \<and> first_zone latitude longitude [] = ''General Campus Area''
   \<and> determine_campus_zone 0 0 = ''General Campus Area''"
proof (intro conjI)
  show "determine_campus_zone latitude longitude
      = first_zone latitude longitude zone_definitions"
    using determine_campus_zone_first_match [of latitude longitude]
    by (simp add: resolve_zone_spec_def)
  show "map zone_name zone_definitions =
       [''Academic Zone'', ''Student Residential Zone'', ''Medical Zone'',
        ''Sports & Recreation Zone'']"
    by (simp add: zone_definitions_def)
  show "first_zone latitude longitude [] = ''General Campus Area''"
    by simp
  show "determine_campus_zone 0 0 = ''General Campus Area''"
    by (rule determine_campus_zone_origin)
qed

section \<open>Properties of the campus fence\<close>

lemma pip_vertices_oau:
  "pip_vertices oau_polygon =
     [(7.5300, 4.5050), (7.5380, 4.5200), (7.5350, 4.5300), (7.5250, 4.5350),
      (7.5100, 4.5250), (7.5150, 4.5100), (7.5150, 4.5100)]"
  by (simp add: pip_vertices_def oau_polygon_def upt_rec)

text \<open>
  \<^verbatim>\<open>xinters\<close> is never read unbound: inside the guard \<open>min p1y p2y < y \<le> max p1y p2y\<close>
  the two ordinates differ, so the assignment has just run.
\<close>

lemma pip_step_total: "\<exists>s'. pip_step x y p2 s = Inr s'"
  by (auto simp: pip_step_def Let_def split: option.splits)

lemma pip_loop_total: "\<exists>s'. pip_loop x y ps s = Inr s'"
proof (induction ps arbitrary: s)
  case Nil
  show ?case by simp
next
  case (Cons p2 ps)
  obtain s1 where "pip_step x y p2 s = Inr s1"
    using pip_step_total by blast
  then show ?case using Cons.IH [of s1] by simp
qed

lemma point_in_polygon_total:
  "polygon \<noteq> [] \<Longrightarrow> \<exists>b. point_in_polygon lat lon polygon = Inr b"
proof -
  assume "polygon \<noteq> []"
  then obtain p0 ps where p: "polygon = p0 # ps" by (cases polygon) auto
  obtain s' where "pip_loop lon lat (pip_vertices polygon)
      \<lparr>inside = False, xinters = None, p1 = p0\<rparr> = Inr s'"
    using pip_loop_total by blast
  then show ?thesis
    by (simp add: point_in_polygon_def p)
qed

lemma is_within_oau_polygon_total: "\<exists>b. is_within_oau_polygon latitude longitude = Inr b"
  unfolding is_within_oau_polygon_def
  by (rule point_in_polygon_total) (simp add: oau_polygon_def)

lemma is_within_oau_campus_total: "\<exists>b. is_within_oau_campus latitude longitude = Inr b"
  using is_within_oau_polygon_total [of latitude longitude]
  by (auto simp: is_within_oau_campus_def Let_def)

lemma is_within_oau_polygon_origin: "is_within_oau_polygon 0 0 = Inr False"
  unfolding is_within_oau_polygon_def point_in_polygon_def pip_vertices_oau
  by (simp add: oau_polygon_def pip_step_def)

lemma is_within_oau_polygon_center: "is_within_oau_polygon 7.5227 4.5198 = Inr False"
  unfolding is_within_oau_polygon_def point_in_polygon_def pip_vertices_oau
  by (simp add: oau_polygon_def pip_step_def)

text \<open>
  The vertices are written \<open>(latitude, longitude)\<close> and read as \<open>(x, y)\<close> with
  \<open>x\<close> the longitude: the polygon holds the mirror image of the centre.
\<close>

lemma is_within_oau_polygon_center_mirrored: "is_within_oau_polygon 4.5198 7.5227 = Inr True"
  unfolding is_within_oau_polygon_def point_in_polygon_def pip_vertices_oau
  by (simp add: oau_polygon_def pip_step_def)

lemma is_within_oau_campus_two_stage:
  "is_within_oau_campus latitude longitude =
     (if OAU_RADIUS_KM < calculate_distance latitude longitude OAU_CENTER_LAT OAU_CENTER_LNG
      then Inr False
      else is_within_oau_polygon latitude longitude)"
  by (simp add: is_within_oau_campus_def Let_def)

lemma is_within_oau_campus_origin: "is_within_oau_campus 0 0 = Inr False"
  by (simp only: is_within_oau_campus_two_stage is_within_oau_polygon_origin if_cancel)

lemma is_within_oau_campus_center: "is_within_oau_campus 7.5227 4.5198 = Inr False"
  by (simp only: is_within_oau_campus_two_stage is_within_oau_polygon_center if_cancel)

lemma center_distance_zero:
  "calculate_distance 7.5227 4.5198 OAU_CENTER_LAT OAU_CENTER_LNG = 0"
  unfolding OAU_CENTER_LAT_def OAU_CENTER_LNG_def by (rule calculate_distance_self)

text \<open>
  No edge is crossed, and the flag keeps its value, when the ordinate \<open>y\<close> of the
  point lies at or below every vertex ordinate, or above every one.
\<close>

lemma pip_step_outside_band:
  assumes "y \<le> snd (p1 s) \<and> y \<le> snd p2 \<or> snd (p1 s) < y \<and> snd p2 < y"
  shows "pip_step x y p2 s = Inr (s\<lparr>p1 := p2\<rparr>)"
  using assms by (auto simp: pip_step_def Let_def)

lemma pip_loop_outside_band:
  assumes "(\<forall>v\<in>set (p1 s # ps). y \<le> snd v) \<or> (\<forall>v\<in>set (p1 s # ps). snd v < y)"
  shows "\<exists>s'. pip_loop x y ps s = Inr s' \<and> inside s' = inside s"
  using assms
proof (induction ps arbitrary: s)
  case Nil
  show ?case by simp
next
  case (Cons p2 ps)
  have step: "pip_step x y p2 s = Inr (s\<lparr>p1 := p2\<rparr>)"
    using Cons.prems by (intro pip_step_outside_band) auto
  have "(\<forall>v\<in>set (p1 (s\<lparr>p1 := p2\<rparr>) # ps). y \<le> snd v)
      \<or> (\<forall>v\<in>set (p1 (s\<lparr>p1 := p2\<rparr>) # ps). snd v < y)"
    using Cons.prems by auto
  from Cons.IH [OF this] show ?case by (simp add: step)
qed

lemma is_within_oau_polygon_band:
  assumes "latitude \<le> 4.5050 \<or> 4.5350 < latitude"
  shows "is_within_oau_polygon latitude longitude = Inr False"
proof -
  let ?s = "\<lparr>inside = False, xinters = None, p1 = (7.5150, 4.5100)\<rparr>"
  have "(\<forall>v\<in>set (p1 ?s # pip_vertices oau_polygon). latitude \<le> snd v)
      \<or> (\<forall>v\<in>set (p1 ?s # pip_vertices oau_polygon). snd v < latitude)"
    using assms unfolding pip_vertices_oau by auto
  from pip_loop_outside_band [OF this, of longitude]
  obtain s' where "pip_loop longitude latitude (pip_vertices oau_polygon) ?s = Inr s'"
    and "inside s' = False"
    by auto
  then show ?thesis
    unfolding is_within_oau_polygon_def point_in_polygon_def Let_def
    by (simp add: oau_polygon_def)
qed

text \<open>
  With the axes of the polygon swapped, the two stages exclude each other: the polygon
  stage can only accept a latitude between 4.505 and 4.535, some three degrees of
  latitude, more than 300 km, away from the centre.
\<close>

lemma is_within_oau_campus_never: "is_within_oau_campus latitude longitude = Inr False"
proof (cases "latitude \<le> 4.5050 \<or> 4.5350 < latitude")
  case True
  then have "is_within_oau_polygon latitude longitude = Inr False"
    by (rule is_within_oau_polygon_band)
  then show ?thesis by (simp only: is_within_oau_campus_two_stage if_cancel)
next
  case False
  then have b: "4.5050 < latitude" "latitude \<le> 4.5350" by auto
  have "6371 * radians \<bar>OAU_CENTER_LAT - latitude\<bar>
      \<le> calculate_distance latitude longitude OAU_CENTER_LAT OAU_CENTER_LNG"
    using b by (intro calculate_distance_ge_lat) (auto simp: OAU_CENTER_LAT_def)
  moreover have "radians 2 \<le> radians \<bar>OAU_CENTER_LAT - latitude\<bar>"
    using b by (intro radians_mono) (auto simp: OAU_CENTER_LAT_def)
  moreover have "2 * (2 / 180) \<le> radians 2"
    using pi_ge_two by (simp add: radians_def)
  ultimately have "OAU_RADIUS_KM < calculate_distance latitude longitude OAU_CENTER_LAT OAU_CENTER_LNG"
    by (simp add: OAU_RADIUS_KM_def)
  then show ?thesis by (simp add: is_within_oau_campus_two_stage)
qed

text \<open>
  C2.  The code at the campus centre (7.5227, 4.5198): the distance to the centre is 0,
  within the radius of 5 km, so the first stage passes; the polygon stage answers False,
  and so does \<^verbatim>\<open>is_within_oau_campus\<close>.  The two-stage shape and the answer False at
  (0, 0) hold as the claim says.
\<close>

theorem C2_campus_center_not_within_campus:
  "calculate_distance 7.5227 4.5198 OAU_CENTER_LAT OAU_CENTER_LNG = 0
   \<and> \<not> OAU_RADIUS_KM < calculate_distance 7.5227 4.5198 OAU_CENTER_LAT OAU_CENTER_LNG
   \<and> is_within_oau_polygon 7.5227 4.5198 = Inr False
   \<and> is_within_oau_campus 7.5227 4.5198 = Inr False
   \<and> is_within_oau_campus 0 0 = Inr False
   \<and> length oau_polygon = 7"
proof (intro conjI)
  show "calculate_distance 7.5227 4.5198 OAU_CENTER_LAT OAU_CENTER_LNG = 0"
    by (rule center_distance_zero)
  show "\<not> OAU_RADIUS_KM < calculate_distance 7.5227 4.5198 OAU_CENTER_LAT OAU_CENTER_LNG"
    by (simp only: center_distance_zero OAU_RADIUS_KM_def)
  show "is_within_oau_polygon 7.5227 4.5198 = Inr False"
    by (rule is_within_oau_polygon_center)
  show "is_within_oau_campus 7.5227 4.5198 = Inr False"
    by (rule is_within_oau_campus_center)
  show "is_within_oau_campus 0 0 = Inr False"
    by (rule is_within_oau_campus_origin)
  show "length oau_polygon = 7"
    by (simp add: oau_polygon_def)
qed

section \<open>Properties of the validation\<close>

lemma range_errors_empty_iff:
  "range_errors latitude longitude = [] \<longleftrightarrow>
     - 90 \<le> latitude \<and> latitude \<le> 90 \<and> - 180 \<le> longitude \<and> longitude \<le> 180"
  by (auto simp: range_errors_def)

lemma validate_coordinates_out_of_range:
  "range_errors latitude longitude \<noteq> [] \<Longrightarrow>
     validate_coordinates latitude longitude =
       Inr (validation_init\<lparr>vr_errors := range_errors latitude longitude\<rparr>)"
  by (simp add: validate_coordinates_def Let_def)

lemma validate_coordinates_in_range:
  assumes "range_errors latitude longitude = []"
    and "is_within_oau_campus latitude longitude = Inr w"
  shows "validate_coordinates latitude longitude =
     Inr (if w
          then \<lparr>vr_valid = True, vr_within_campus = True,
                vr_nearest_landmark = Some (get_nearest_landmark_default latitude longitude),
                vr_distance_from_center =
                  Some (calculate_distance latitude longitude OAU_CENTER_LAT OAU_CENTER_LNG),
                vr_zone = Some (determine_campus_zone latitude longitude),
                vr_errors = []\<rparr>
          else \<lparr>vr_valid = False, vr_within_campus = False,
                vr_nearest_landmark = None,
                vr_distance_from_center =
                  Some (calculate_distance latitude longitude OAU_CENTER_LAT OAU_CENTER_LNG),
                vr_zone = None,
                vr_errors = [''Location is outside OAU campus boundaries'']\<rparr>)"
  using assms by (simp add: validate_coordinates_def Let_def validation_init_def)

lemma range_errors_origin: "range_errors 0 0 = []"
  by (simp add: range_errors_def)

lemma validate_coordinates_origin:
  "validate_coordinates 0 0 =
     Inr \<lparr>vr_valid = False, vr_within_campus = False, vr_nearest_landmark = None,
          vr_distance_from_center = Some (calculate_distance 0 0 OAU_CENTER_LAT OAU_CENTER_LNG),
          vr_zone = None,
          vr_errors = [''Location is outside OAU campus boundaries'']\<rparr>"
  using validate_coordinates_in_range [OF range_errors_origin is_within_oau_campus_origin]
  by simp

text \<open>
  C1, as the claim states it, fails at (0, 0): both coordinates are in range, and the
  result carries neither a nearest landmark nor a zone.
\<close>

theorem C1_in_range_without_landmark_and_zone:
  "range_errors 0 0 = []
   \<and> (\<exists>r. validate_coordinates 0 0 = Inr r
          \<and> vr_nearest_landmark r = None \<and> vr_zone r = None
          \<and> vr_distance_from_center r \<noteq> None)"
  by (simp add: range_errors_origin validate_coordinates_origin)

text \<open>
  C1, amended.  \<^verbatim>\<open>validate_coordinates\<close> checks the ranges first.  If a coordinate
  is out of range, the result carries exactly the range violations (the latitude
  message, the longitude message, or both, in this order) and every other field keeps
  its initial value: not valid, not within campus, no distance, no landmark, no zone.
  If both are in range, the result carries the campus membership and the distance from
  the centre; the nearest landmark and the zone are reported only when the point is
  within campus, and otherwise the result carries the error that the location is
  outside the campus boundaries.
\<close>

theorem C1_validate_coordinates_range_check_first:
  "(range_errors latitude longitude = [] \<longleftrightarrow>
      - 90 \<le> latitude \<and> latitude \<le> 90 \<and> - 180 \<le> longitude \<and> longitude \<le> 180)
   \<and> (range_errors latitude longitude \<noteq> [] \<longrightarrow>
        validate_coordinates latitude longitude =
          Inr \<lparr>vr_valid = False, vr_within_campus = False, vr_nearest_landmark = None,
               vr_distance_from_center = None, vr_zone = None,
               vr_errors = range_errors latitude longitude\<rparr>)
   \<and> (range_errors latitude longitude = [] \<longrightarrow>
        (\<exists>w. is_within_oau_campus latitude longitude = Inr w
           \<and> validate_coordinates latitude longitude =
               Inr (if w
                    then \<lparr>vr_valid = True, vr_within_campus = True,
                          vr_nearest_landmark =
                            Some (get_nearest_landmark_default latitude longitude),
                          vr_distance_from_center =
                            Some (calculate_distance latitude longitude
                                    OAU_CENTER_LAT OAU_CENTER_LNG),
                          vr_zone = Some (determine_campus_zone latitude longitude),
                          vr_errors = []\<rparr>
                    else \<lparr>vr_valid = False, vr_within_campus = False,
                          vr_nearest_landmark = None,
                          vr_distance_from_center =
                            Some (calculate_distance latitude longitude
                                    OAU_CENTER_LAT OAU_CENTER_LNG),
                          vr_zone = None,
                          vr_errors = [''Location is outside OAU campus boundaries'']\<rparr>)))
   \<and> range_errors latitude longitude =
       (if - 90 \<le> latitude \<and> latitude \<le> 90 then []
        else [''Invalid latitude: must be between -90 and 90''])
       @ (if - 180 \<le> longitude \<and> longitude \<le> 180 then []
          else [''Invalid longitude: must be between -180 and 180''])"
proof (intro conjI impI)
  show "range_errors latitude longitude = [] \<longleftrightarrow>
      - 90 \<le> latitude \<and> latitude \<le> 90 \<and> - 180 \<le> longitude \<and> longitude \<le> 180"
    by (rule range_errors_empty_iff)
next
  assume "range_errors latitude longitude \<noteq> []"
  then show "validate_coordinates latitude longitude =
          Inr \<lparr>vr_valid = False, vr_within_campus = False, vr_nearest_landmark = None,
               vr_distance_from_center = None, vr_zone = None,
               vr_errors = range_errors latitude longitude\<rparr>"
    by (simp add: validate_coordinates_out_of_range validation_init_def)
next
  assume r: "range_errors latitude longitude = []"
  obtain w where w: "is_within_oau_campus latitude longitude = Inr w"
    using is_within_oau_campus_total by blast
  show "\<exists>w. is_within_oau_campus latitude longitude = Inr w
           \<and> validate_coordinates latitude longitude =
               Inr (if w
                    then \<lparr>vr_valid = True, vr_within_campus = True,
                          vr_nearest_landmark =
                            Some (get_nearest_landmark_default latitude longitude),
                          vr_distance_from_center =
                            Some (calculate_distance latitude longitude
                                    OAU_CENTER_LAT OAU_CENTER_LNG),
                          vr_zone = Some (determine_campus_zone latitude longitude),
                          vr_errors = []\<rparr>
                    else \<lparr>vr_valid = False, vr_within_campus = False,
                          vr_nearest_landmark = None,
                          vr_distance_from_center =
                            Some (calculate_distance latitude longitude
                                    OAU_CENTER_LAT OAU_CENTER_LNG),
                          vr_zone = None,
                          vr_errors = [''Location is outside OAU campus boundaries'']\<rparr>)"
    using w validate_coordinates_in_range [OF r w] by blast
next
  show "range_errors latitude longitude =
       (if - 90 \<le> latitude \<and> latitude \<le> 90 then []
        else [''Invalid latitude: must be between -90 and 90''])
       @ (if - 180 \<le> longitude \<and> longitude \<le> 180 then []
          else [''Invalid longitude: must be between -180 and 180''])"
    by (simp add: range_errors_def)
qed

theorem C1_validate_coordinates_witness:
  "validate_coordinates 100 200 =
     Inr \<lparr>vr_valid = False, vr_within_campus = False, vr_nearest_landmark = None,
          vr_distance_from_center = None, vr_zone = None,
          vr_errors = [''Invalid latitude: must be between -90 and 90'',
                       ''Invalid longitude: must be between -180 and 180'']\<rparr>
   \<and> (\<exists>w. is_within_oau_campus 0 0 = Inr w
          \<and> validate_coordinates 0 0 =
              Inr (if w
                   then \<lparr>vr_valid = True, vr_within_campus = True,
                         vr_nearest_landmark = Some (get_nearest_landmark_default 0 0),
                         vr_distance_from_center =
                           Some (calculate_distance 0 0 OAU_CENTER_LAT OAU_CENTER_LNG),
                         vr_zone = Some (determine_campus_zone 0 0),
                         vr_errors = []\<rparr>
                   else \<lparr>vr_valid = False, vr_within_campus = False,
                         vr_nearest_landmark = None,
                         vr_distance_from_center =
                           Some (calculate_distance 0 0 OAU_CENTER_LAT OAU_CENTER_LNG),
                         vr_zone = None,
                         vr_errors = [''Location is outside OAU campus boundaries'']\<rparr>))"
proof -
  have e: "range_errors 100 200 =
      [''Invalid latitude: must be between -90 and 90'',
       ''Invalid longitude: must be between -180 and 180'']"
    by (simp add: range_errors_def)
  have n: "range_errors 100 200 \<noteq> []" by (simp add: e)
  have z: "range_errors 0 0 = []" by (simp add: range_errors_def)
  have a: "validate_coordinates 100 200 =
     Inr \<lparr>vr_valid = False, vr_within_campus = False, vr_nearest_landmark = None,
          vr_distance_from_center = None, vr_zone = None,
          vr_errors = range_errors 100 200\<rparr>"
    using C1_validate_coordinates_range_check_first [of 100 200] n by blast
  have b: "\<exists>w. is_within_oau_campus 0 0 = Inr w
          \<and> validate_coordinates 0 0 =
              Inr (if w
                   then \<lparr>vr_valid = True, vr_within_campus = True,
                         vr_nearest_landmark = Some (get_nearest_landmark_default 0 0),
                         vr_distance_from_center =
                           Some (calculate_distance 0 0 OAU_CENTER_LAT OAU_CENTER_LNG),
                         vr_zone = Some (determine_campus_zone 0 0),
                         vr_errors = []\<rparr>
                   else \<lparr>vr_valid = False, vr_within_campus = False,
                         vr_nearest_landmark = None,
                         vr_distance_from_center =
                           Some (calculate_distance 0 0 OAU_CENTER_LAT OAU_CENTER_LNG),
                         vr_zone = None,
                         vr_errors = [''Location is outside OAU campus boundaries'']\<rparr>)"
    using C1_validate_coordinates_range_check_first [of 0 0] z by blast
  from a have a': "validate_coordinates 100 200 =
     Inr \<lparr>vr_valid = False, vr_within_campus = False, vr_nearest_landmark = None,
          vr_distance_from_center = None, vr_zone = None,
          vr_errors = [''Invalid latitude: must be between -90 and 90'',
                       ''Invalid longitude: must be between -180 and 180'']\<rparr>"
    unfolding e .
  show ?thesis using a' b by (rule conjI)
qed

section \<open>Properties of the nearest-landmark scan\<close>

lemma landmark_distance_nonneg: "0 \<le> landmark_distance latitude longitude l"
  by (simp add: landmark_distance_def calculate_distance_nonneg)

lemma scan_step_eq:
  "scan_step latitude longitude max_distance st l =
     (if below_min (landmark_distance latitude longitude l) (min_distance st)
         \<and> landmark_distance latitude longitude l \<le> max_distance
      then scan_hit latitude longitude l else st)"
  by (simp add: scan_step_def scan_hit_def landmark_distance_def Let_def)

lemma scan_label_init: "scan_label scan_init = ''On Campus (Location Unknown)''"
  by (simp add: scan_label_def scan_init_def)

lemma scan_label_hit:
  "scan_label (scan_hit latitude longitude l) =
     tier_label (lm_name l) (py_round (landmark_distance latitude longitude l * 1000))"
proof -
  define m where "m = py_round (landmark_distance latitude longitude l * 1000)"
  have 1: "(of_int m < (50::real)) = (m < 50)" by linarith
  have 2: "(of_int m < (200::real)) = (m < 200)" by linarith
  show ?thesis
    unfolding scan_label_def scan_hit_def tier_label_def m_def [symmetric]
    by (simp add: 1 2 py_int_of_int)
qed

lemma min_distance_init: "min_distance scan_init = None"
  by (simp add: scan_init_def)

text \<open>
  What the scan holds after any table: nothing, when no landmark is within
  \<open>max_distance\<close>; otherwise a landmark within \<open>max_distance\<close> at the least distance.
\<close>

lemma scan_foldl:
  "((\<forall>l\<in>set ls. max_distance < landmark_distance latitude longitude l)
      \<and> foldl (scan_step latitude longitude max_distance) scan_init ls = scan_init)
   \<or> (\<exists>l\<in>set ls.
        landmark_distance latitude longitude l \<le> max_distance
        \<and> (\<forall>l'\<in>set ls. landmark_distance latitude longitude l' \<le> max_distance \<longrightarrow>
              landmark_distance latitude longitude l \<le> landmark_distance latitude longitude l')
        \<and> foldl (scan_step latitude longitude max_distance) scan_init ls
            = scan_hit latitude longitude l)"
proof (induction ls rule: rev_induct)
  case Nil
  show ?case by simp
next
  case (snoc x xs)
  let ?D = "landmark_distance latitude longitude"
  let ?st = "foldl (scan_step latitude longitude max_distance) scan_init xs"
  from snoc.IH show ?case
  proof (elim disjE conjE bexE)
    assume far: "\<forall>l\<in>set xs. max_distance < ?D l" and st: "?st = scan_init"
    show ?thesis
    proof (cases "?D x \<le> max_distance")
      case True
      then have "foldl (scan_step latitude longitude max_distance) scan_init (xs @ [x])
          = scan_hit latitude longitude x"
        by (simp add: st scan_step_eq min_distance_init below_min_def)
      moreover have "\<forall>l'\<in>set (xs @ [x]). ?D l' \<le> max_distance \<longrightarrow> ?D x \<le> ?D l'"
        using far by auto
      ultimately show ?thesis using True by auto
    next
      case False
      then have "foldl (scan_step latitude longitude max_distance) scan_init (xs @ [x])
          = scan_init"
        by (simp add: st scan_step_eq)
      moreover have "\<forall>l\<in>set (xs @ [x]). max_distance < ?D l"
        using far False by auto
      ultimately show ?thesis by blast
    qed
  next
    fix l
    assume l: "l \<in> set xs" "?D l \<le> max_distance"
      and least: "\<forall>l'\<in>set xs. ?D l' \<le> max_distance \<longrightarrow> ?D l \<le> ?D l'"
      and st: "?st = scan_hit latitude longitude l"
    have md: "min_distance (scan_hit latitude longitude l) = Some (?D l)"
      by (simp add: scan_hit_def)
    show ?thesis
    proof (cases "?D x < ?D l \<and> ?D x \<le> max_distance")
      case True
      then have "foldl (scan_step latitude longitude max_distance) scan_init (xs @ [x])
          = scan_hit latitude longitude x"
        by (simp add: st scan_step_eq md below_min_def)
      moreover have "\<forall>l'\<in>set (xs @ [x]). ?D l' \<le> max_distance \<longrightarrow> ?D x \<le> ?D l'"
        using least True by fastforce
      ultimately show ?thesis using True by auto
    next
      case False
      then have "foldl (scan_step latitude longitude max_distance) scan_init (xs @ [x])
          = scan_hit latitude longitude l"
        by (auto simp add: st scan_step_eq md below_min_def)
      moreover have "\<forall>l'\<in>set (xs @ [x]). ?D l' \<le> max_distance \<longrightarrow> ?D l \<le> ?D l'"
        using least False by auto
      ultimately show ?thesis using l by auto
    qed
  qed
qed

lemma nearest_scan_none:
  assumes "\<forall>l\<in>set ls. max_distance < landmark_distance latitude longitude l"
  shows "nearest_scan ls latitude longitude max_distance = ''On Campus (Location Unknown)''"
proof -
  from scan_foldl [of ls max_distance latitude longitude]
  have "foldl (scan_step latitude longitude max_distance) scan_init ls = scan_init"
    using assms by fastforce
  then show ?thesis by (simp add: nearest_scan_def scan_label_init)
qed

lemma nearest_scan_some:
  assumes "\<exists>l\<in>set ls. landmark_distance latitude longitude l \<le> max_distance"
  shows "\<exists>l\<in>set ls.
      landmark_distance latitude longitude l \<le> max_distance
      \<and> (\<forall>l'\<in>set ls. landmark_distance latitude longitude l
                         \<le> landmark_distance latitude longitude l')
      \<and> nearest_scan ls latitude longitude max_distance =
          tier_label (lm_name l) (py_round (landmark_distance latitude longitude l * 1000))"
proof -
  let ?D = "landmark_distance latitude longitude"
  from scan_foldl [of ls max_distance latitude longitude] assms
  obtain l where l: "l \<in> set ls" "?D l \<le> max_distance"
    and least: "\<forall>l'\<in>set ls. ?D l' \<le> max_distance \<longrightarrow> ?D l \<le> ?D l'"
    and st: "foldl (scan_step latitude longitude max_distance) scan_init ls
              = scan_hit latitude longitude l"
    by fastforce
  have "\<forall>l'\<in>set ls. ?D l \<le> ?D l'"
  proof
    fix l' assume "l' \<in> set ls"
    then show "?D l \<le> ?D l'"
      using least l(2) by (cases "?D l' \<le> max_distance") auto
  qed
  moreover have "nearest_scan ls latitude longitude max_distance =
      tier_label (lm_name l) (py_round (?D l * 1000))"
    by (simp add: nearest_scan_def st scan_label_hit)
  ultimately show ?thesis using l by blast
qed

lemma catalog_ranges:
  "\<forall>l\<in>set OAU_LANDMARKS. \<bar>lm_lat l\<bar> < 90 \<and> \<bar>lm_lng l\<bar> < 180"
  by (simp add: OAU_LANDMARKS_def)

lemma catalog_distinct_coordinates:
  "distinct (map (\<lambda>l. (lm_lat l, lm_lng l)) OAU_LANDMARKS)"
  by (simp add: OAU_LANDMARKS_def)

lemma catalog_same_coordinates:
  assumes "l \<in> set OAU_LANDMARKS" "l' \<in> set OAU_LANDMARKS"
    and "lm_lat l' = lm_lat l" "lm_lng l' = lm_lng l"
  shows "l' = l"
proof -
  have "inj_on (\<lambda>l. (lm_lat l, lm_lng l)) (set OAU_LANDMARKS)"
    using catalog_distinct_coordinates by (simp add: distinct_map)
  then show ?thesis using assms by (auto dest: inj_onD)
qed

lemma catalog_zero_distance:
  assumes l: "l \<in> set OAU_LANDMARKS" and l': "l' \<in> set OAU_LANDMARKS"
    and z: "landmark_distance (lm_lat l) (lm_lng l) l' = 0"
  shows "l' = l"
proof -
  have r: "\<bar>lm_lat l\<bar> < 90" "\<bar>lm_lng l\<bar> < 180" "\<bar>lm_lat l'\<bar> < 90" "\<bar>lm_lng l'\<bar> < 180"
    using catalog_ranges l l' by auto
  then have d: "\<bar>lm_lng l' - lm_lng l\<bar> < 360" by linarith
  have "lm_lat l = lm_lat l' \<and> lm_lng l = lm_lng l'"
    using z calculate_distance_zero_iff [OF r(1) r(3) d]
    by (simp add: landmark_distance_def)
  then show ?thesis using catalog_same_coordinates [OF l l'] by simp
qed

lemma nearest_at_landmark:
  assumes l: "l \<in> set OAU_LANDMARKS"
  shows "get_nearest_landmark_default (lm_lat l) (lm_lng l) = ''At '' @ lm_name l"
proof -
  let ?D = "landmark_distance (lm_lat l) (lm_lng l)"
  have self: "?D l = 0"
    by (simp add: landmark_distance_def calculate_distance_self)
  then have "\<exists>k\<in>set OAU_LANDMARKS. ?D k \<le> 1" using l by force
  from nearest_scan_some [OF this]
  obtain k where k: "k \<in> set OAU_LANDMARKS"
    and least: "\<forall>l'\<in>set OAU_LANDMARKS. ?D k \<le> ?D l'"
    and res: "nearest_scan OAU_LANDMARKS (lm_lat l) (lm_lng l) 1 =
          tier_label (lm_name k) (py_round (?D k * 1000))"
    by blast
  have "?D k \<le> 0" using least l self by force
  then have k0: "?D k = 0" using landmark_distance_nonneg [of "lm_lat l" "lm_lng l" k] by linarith
  then have "k = l" using catalog_zero_distance [OF l k] by simp
  then show ?thesis
    using res self
    by (simp add: get_nearest_landmark_default_def get_nearest_landmark_def tier_label_def
        py_round_def)
qed

lemma origin_far_from_catalog:
  "\<forall>l\<in>set OAU_LANDMARKS. 1 < landmark_distance 0 0 l"
proof
  fix l assume l: "l \<in> set OAU_LANDMARKS"
  have "\<forall>l\<in>set OAU_LANDMARKS. 7 \<le> lm_lat l \<and> lm_lat l \<le> 90"
    by (simp add: OAU_LANDMARKS_def)
  then have r: "7 \<le> lm_lat l" "lm_lat l \<le> 90" using l by auto
  have "6371 * radians \<bar>lm_lat l - 0\<bar> \<le> calculate_distance 0 0 (lm_lat l) (lm_lng l)"
    using r by (intro calculate_distance_ge_lat) auto
  moreover have "radians 7 \<le> radians \<bar>lm_lat l - 0\<bar>"
    using r by (intro radians_mono) auto
  moreover have "7 * (2 / 180) \<le> radians 7"
    using pi_ge_two by (simp add: radians_def)
  ultimately show "1 < landmark_distance 0 0 l"
    by (simp add: landmark_distance_def)
qed

lemma tier_label_examples:
  "tier_label ''Main Gate'' 12 = ''At Main Gate''
   \<and> tier_label ''Main Gate'' 120 = ''Near Main Gate''
   \<and> tier_label ''Main Gate'' 350 = ''Close to Main Gate (350m)''"
  by (simp add: tier_label_def str_int_def str_nat.simps digit_char_def)

text \<open>
  A point of the middle tier: 0.001 degrees of latitude, about 111 m, due north of the
  Teaching Hospital, the northernmost landmark of the table.
\<close>

lemma nearest_north_of_hospital:
  "get_nearest_landmark_default 7.5355 4.5123 = ''Near OAU Teaching Hospital (OAUTHC)''"
proof -
  let ?D = "landmark_distance 7.5355 4.5123"
  define h where "h = OAU_LANDMARKS ! 11"
  have h: "h \<in> set OAU_LANDMARKS" by (simp add: h_def OAU_LANDMARKS_def)
  have hc: "lm_lat h = 7.5345" "lm_lng h = 4.5123"
    and hn: "lm_name h = ''OAU Teaching Hospital (OAUTHC)''"
    by (simp_all add: h_def OAU_LANDMARKS_def)
  have "\<bar>7.5345 - 7.5355\<bar> \<le> (180::real)" by simp
  from calculate_distance_same_lon [OF this, of "4.5123"]
  have "calculate_distance 7.5355 4.5123 7.5345 4.5123 = 6371 * radians \<bar>7.5345 - 7.5355\<bar>" .
  also have "\<bar>7.5345 - 7.5355\<bar> = (0.001::real)" by simp
  finally have Dh: "?D h = 6371 * radians 0.001"
    by (simp only: landmark_distance_def hc)
  have others: "\<forall>l\<in>set OAU_LANDMARKS. l = h \<or> (0 \<le> lm_lat l \<and> lm_lat l \<le> 7.5320)"
    by (simp add: h_def OAU_LANDMARKS_def)
  have far: "?D h < ?D l" if l: "l \<in> set OAU_LANDMARKS" and ne: "l \<noteq> h" for l
  proof -
    have r: "0 \<le> lm_lat l" "lm_lat l \<le> 7.5320" using others l ne by auto
    have "6371 * radians \<bar>lm_lat l - 7.5355\<bar> \<le> ?D l"
      unfolding landmark_distance_def
      using r by (intro calculate_distance_ge_lat) auto
    moreover have "radians 0.0035 \<le> radians \<bar>lm_lat l - 7.5355\<bar>"
      using r by (intro radians_mono) auto
    moreover have "radians 0.001 < radians 0.0035"
      by (intro radians_strict_mono) simp
    ultimately show ?thesis unfolding Dh by linarith
  qed
  have within: "?D h \<le> 1"
    using Dh pi_less_4 by (simp add: radians_def)
  then have "\<exists>l\<in>set OAU_LANDMARKS. ?D l \<le> 1" using h by blast
  from nearest_scan_some [OF this]
  obtain k where k: "k \<in> set OAU_LANDMARKS"
    and least: "\<forall>l'\<in>set OAU_LANDMARKS. ?D k \<le> ?D l'"
    and res: "nearest_scan OAU_LANDMARKS 7.5355 4.5123 1 =
          tier_label (lm_name k) (py_round (?D k * 1000))"
    by blast
  have "k = h"
  proof (rule ccontr)
    assume "k \<noteq> h"
    then have "?D h < ?D k" using k by (intro far)
    moreover have "?D k \<le> ?D h" using least h by blast
    ultimately show False by simp
  qed
  define m where "m = py_round (?D h * 1000)"
  have x: "106 \<le> ?D h * 1000" "?D h * 1000 \<le> 142"
    using Dh pi_ge_three pi_less_4 by (simp_all add: radians_def)
  have "of_int m \<le> ?D h * 1000 + 1 / 2" "?D h * 1000 - 1 / 2 \<le> of_int m"
    using py_round_bounds [of "?D h * 1000"] by (simp_all add: m_def)
  then have "(105::real) \<le> of_int m" "of_int m \<le> (143::real)" using x by linarith+
  then have m: "105 \<le> m" "m \<le> 143" by linarith+
  have t: "tier_label (lm_name h) m = ''Near '' @ lm_name h"
    using m by (simp add: tier_label_def)
  have "nearest_scan OAU_LANDMARKS 7.5355 4.5123 1 = tier_label (lm_name h) m"
    using res unfolding \<open>k = h\<close> m_def .
  then have "nearest_scan OAU_LANDMARKS 7.5355 4.5123 1 = ''Near OAU Teaching Hospital (OAUTHC)''"
    using t hn by simp
  then show ?thesis
    by (simp add: get_nearest_landmark_default_def get_nearest_landmark_def)
qed

text \<open>
  A point exactly 49.75 m due north of the Teaching Hospital, the northernmost
  landmark of the table: its distance rounds to 50 m.
\<close>

lemma north_of_hospital_49_75:
  fixes lat0 :: real
  defines "lat0 \<equiv> 7.5345 + 0.04975 * 180 / (6371 * pi)"
  shows "landmark_distance lat0 4.5123 (OAU_LANDMARKS ! 11) * 1000 = 49.75"
    and "lm_name (OAU_LANDMARKS ! 11) = ''OAU Teaching Hospital (OAUTHC)''"
    and "Min ((\<lambda>l. landmark_distance lat0 4.5123 l) ` set OAU_LANDMARKS) * 1000 = 49.75"
    and "get_nearest_landmark_default lat0 4.5123 = ''Near OAU Teaching Hospital (OAUTHC)''"
proof -
  let ?D = "landmark_distance lat0 4.5123"
  define h where "h = OAU_LANDMARKS ! 11"
  define dl :: real where "dl = 0.04975 * 180 / (6371 * pi)"
  have lat0: "lat0 = 7.5345 + dl" by (simp add: lat0_def dl_def)
  have dl0: "0 < dl" by (simp add: dl_def)
  have "0.04975 * 180 \<le> 6371 * pi" using pi_ge_two by simp
  then have dl1: "dl \<le> 1"
    unfolding dl_def using pi_gt_zero by (simp add: field_simps)
  have rad: "6371 * radians dl = 0.04975"
    by (simp add: radians_def dl_def)
  have h: "h \<in> set OAU_LANDMARKS" by (simp add: h_def OAU_LANDMARKS_def)
  have hc: "lm_lat h = 7.5345" "lm_lng h = 4.5123"
    and hn: "lm_name h = ''OAU Teaching Hospital (OAUTHC)''"
    by (simp_all add: h_def OAU_LANDMARKS_def)
  have "\<bar>7.5345 - lat0\<bar> \<le> 180" using dl0 dl1 by (simp add: lat0)
  from calculate_distance_same_lon [OF this, of "4.5123"]
  have "calculate_distance lat0 4.5123 7.5345 4.5123 = 6371 * radians \<bar>7.5345 - lat0\<bar>" .
  also have "\<bar>7.5345 - lat0\<bar> = dl" using dl0 by (simp add: lat0)
  finally have Dh: "?D h = 0.04975"
    by (simp only: landmark_distance_def hc rad)
  have others: "\<forall>l\<in>set OAU_LANDMARKS. l = h \<or> (0 \<le> lm_lat l \<and> lm_lat l \<le> 7.5320)"
    by (simp add: h_def OAU_LANDMARKS_def)
  have far: "?D h < ?D l" if l: "l \<in> set OAU_LANDMARKS" and ne: "l \<noteq> h" for l
  proof -
    have r: "0 \<le> lm_lat l" "lm_lat l \<le> 7.5320" using others l ne by auto
    have "6371 * radians \<bar>lm_lat l - lat0\<bar> \<le> ?D l"
      unfolding landmark_distance_def
      using r dl0 dl1 by (intro calculate_distance_ge_lat) (auto simp: lat0)
    moreover have "radians dl < radians \<bar>lm_lat l - lat0\<bar>"
      using r dl0 by (intro radians_strict_mono) (auto simp: lat0)
    ultimately show ?thesis using rad Dh by simp
  qed
  show 1: "?D (OAU_LANDMARKS ! 11) * 1000 = 49.75"
    using Dh by (simp add: h_def)
  show "lm_name (OAU_LANDMARKS ! 11) = ''OAU Teaching Hospital (OAUTHC)''"
    using hn by (simp add: h_def)
  have "Min (?D ` set OAU_LANDMARKS) = ?D h"
  proof (rule Min_eqI)
    show "finite (?D ` set OAU_LANDMARKS)" by simp
    show "?D h \<in> ?D ` set OAU_LANDMARKS" using h by (rule imageI)
    fix y assume "y \<in> ?D ` set OAU_LANDMARKS"
    then obtain l where "l \<in> set OAU_LANDMARKS" "y = ?D l" by auto
    then show "?D h \<le> y" using far [of l] by (cases "l = h") auto
  qed
  then show "Min (?D ` set OAU_LANDMARKS) * 1000 = 49.75" using Dh by simp
  have "?D h \<le> 1" using Dh by simp
  then have "\<exists>l\<in>set OAU_LANDMARKS. ?D l \<le> 1" using h by blast
  from nearest_scan_some [OF this]
  obtain k where k: "k \<in> set OAU_LANDMARKS"
    and least: "\<forall>l'\<in>set OAU_LANDMARKS. ?D k \<le> ?D l'"
    and res: "nearest_scan OAU_LANDMARKS lat0 4.5123 1 =
          tier_label (lm_name k) (py_round (?D k * 1000))"
    by blast
  have kh: "k = h"
  proof (rule ccontr)
    assume "k \<noteq> h"
    then have "?D h < ?D k" using k by (intro far)
    moreover have "?D k \<le> ?D h" using least h by blast
    ultimately show False by simp
  qed
  have e: "?D h * 1000 = 49.75" using Dh by simp
  have m: "py_round (?D h * 1000) = 50"
    unfolding e by (simp add: py_round_def)
  have "nearest_scan OAU_LANDMARKS lat0 4.5123 1 = tier_label (lm_name h) 50"
    using res unfolding kh m .
  then have "nearest_scan OAU_LANDMARKS lat0 4.5123 1 = ''Near OAU Teaching Hospital (OAUTHC)''"
    using hn by (simp add: tier_label_def)
  then show "get_nearest_landmark_default lat0 4.5123 = ''Near OAU Teaching Hospital (OAUTHC)''"
    by (simp add: get_nearest_landmark_default_def get_nearest_landmark_def)
qed

text \<open>
  C4, as the claim states it, fails at the point 49.75 m due north of the Teaching
  Hospital: the hospital is the landmark at the least distance, 49.75 m and so under
  50 m, and the label is the ``Near'' form, not the ``At'' form.
\<close>

theorem C4_under_50_metres_labelled_near:
  "landmark_distance (7.5345 + 0.04975 * 180 / (6371 * pi)) 4.5123 (OAU_LANDMARKS ! 11) * 1000
     = 49.75
   \<and> lm_name (OAU_LANDMARKS ! 11) = ''OAU Teaching Hospital (OAUTHC)''
   \<and> Min ((\<lambda>l. landmark_distance (7.5345 + 0.04975 * 180 / (6371 * pi)) 4.5123 l)
            ` set OAU_LANDMARKS) * 1000 = 49.75
   \<and> get_nearest_landmark_default (7.5345 + 0.04975 * 180 / (6371 * pi)) 4.5123
       = ''Near OAU Teaching Hospital (OAUTHC)''
   \<and> get_nearest_landmark_default (7.5345 + 0.04975 * 180 / (6371 * pi)) 4.5123
       \<noteq> ''At OAU Teaching Hospital (OAUTHC)''"
proof -
  have "get_nearest_landmark_default (7.5345 + 0.04975 * 180 / (6371 * pi)) 4.5123
       \<noteq> ''At OAU Teaching Hospital (OAUTHC)''"
    by (simp only: north_of_hospital_49_75(4)) simp
  then show ?thesis
    using north_of_hospital_49_75 by (intro conjI)
qed

text \<open>
  C4, amended.  \<^verbatim>\<open>get_nearest_landmark\<close> answers ``On Campus (Location Unknown)''
  when no landmark of the table lies within \<open>max_distance\<close>.  Otherwise it answers for
  a landmark of the table that lies within \<open>max_distance\<close> and is at the least distance
  of all, with the label of the tier of its distance rounded to whole metres, a tie to
  the even: rounded under 50, which is a distance under 49.5 m, ``At name''; rounded
  under 200, which is a distance under 199.5 m, ``Near name''; else ``Close to name
  (Nm)'' with N the rounded metres.  At the coordinates of a landmark of the table, with
  the default \<open>max_distance\<close> of 1.0 km, it answers ``At name'' for that landmark.
\<close>

theorem C4_nearest_landmark_tiers:
  "((\<forall>l\<in>set OAU_LANDMARKS. max_distance < landmark_distance latitude longitude l) \<longrightarrow>
      get_nearest_landmark latitude longitude max_distance = ''On Campus (Location Unknown)'')
   \<and> ((\<exists>l\<in>set OAU_LANDMARKS. landmark_distance latitude longitude l \<le> max_distance) \<longrightarrow>
        (\<exists>l\<in>set OAU_LANDMARKS.
           landmark_distance latitude longitude l \<le> max_distance
           \<and> (\<forall>l'\<in>set OAU_LANDMARKS. landmark_distance latitude longitude l
                                        \<le> landmark_distance latitude longitude l')
           \<and> get_nearest_landmark latitude longitude max_distance =
               tier_label (lm_name l)
                 (py_round (landmark_distance latitude longitude l * 1000))))
   \<and> tier_label name metres =
       (if metres < 50 then ''At '' @ name
        else if metres < 200 then ''Near '' @ name
        else ''Close to '' @ name @ '' ('' @ str_int metres @ ''m)'')
   \<and> get_nearest_landmark_default latitude longitude = get_nearest_landmark latitude longitude 1.0
   \<and> (\<forall>l\<in>set OAU_LANDMARKS.
         get_nearest_landmark_default (lm_lat l) (lm_lng l) = ''At '' @ lm_name l)
   \<and> (py_round x < 50 \<longleftrightarrow> x < 49.5)
   \<and> (py_round x < 200 \<longleftrightarrow> x < 199.5)"
proof (intro conjI impI ballI)
  assume "\<forall>l\<in>set OAU_LANDMARKS. max_distance < landmark_distance latitude longitude l"
  then show "get_nearest_landmark latitude longitude max_distance
      = ''On Campus (Location Unknown)''"
    unfolding get_nearest_landmark_def by (rule nearest_scan_none)
next
  assume "\<exists>l\<in>set OAU_LANDMARKS. landmark_distance latitude longitude l \<le> max_distance"
  then show "\<exists>l\<in>set OAU_LANDMARKS.
           landmark_distance latitude longitude l \<le> max_distance
           \<and> (\<forall>l'\<in>set OAU_LANDMARKS. landmark_distance latitude longitude l
                                        \<le> landmark_distance latitude longitude l')
           \<and> get_nearest_landmark latitude longitude max_distance =
               tier_label (lm_name l)
                 (py_round (landmark_distance latitude longitude l * 1000))"
    unfolding get_nearest_landmark_def by (rule nearest_scan_some)
next
  show "tier_label name metres =
       (if metres < 50 then ''At '' @ name
        else if metres < 200 then ''Near '' @ name
        else ''Close to '' @ name @ '' ('' @ str_int metres @ ''m)'')"
    by (rule tier_label_def)
next
  show "get_nearest_landmark_default latitude longitude
      = get_nearest_landmark latitude longitude 1.0"
    by (rule get_nearest_landmark_default_def)
next
  fix l assume "l \<in> set OAU_LANDMARKS"
  then show "get_nearest_landmark_default (lm_lat l) (lm_lng l) = ''At '' @ lm_name l"
    by (rule nearest_at_landmark)
next
  show "py_round x < 50 \<longleftrightarrow> x < 49.5"
    by (rule py_round_less_50)
next
  show "py_round x < 200 \<longleftrightarrow> x < 199.5"
    by (rule py_round_less_200)
qed

theorem C4_nearest_landmark_witness:
  "get_nearest_landmark_default 7.5227 4.5198 = ''At Main Gate''
   \<and> get_nearest_landmark_default 7.5355 4.5123 = ''Near OAU Teaching Hospital (OAUTHC)''
   \<and> get_nearest_landmark 0 0 1 = ''On Campus (Location Unknown)''
   \<and> (\<exists>l\<in>set OAU_LANDMARKS.
         landmark_distance 7.5227 4.5198 l \<le> 1
         \<and> get_nearest_landmark 7.5227 4.5198 1 =
             tier_label (lm_name l) (py_round (landmark_distance 7.5227 4.5198 l * 1000)))"
proof -
  define g where "g = OAU_LANDMARKS ! 0"
  have g: "g \<in> set OAU_LANDMARKS" by (simp add: g_def OAU_LANDMARKS_def)
  have lat: "lm_lat g = 7.5227" and lng: "lm_lng g = 4.5198" and name: "lm_name g = ''Main Gate''"
    by (simp_all add: g_def OAU_LANDMARKS_def)
  note inst = C4_nearest_landmark_tiers
  have "get_nearest_landmark_default (lm_lat g) (lm_lng g) = ''At '' @ lm_name g"
    using inst [of 1 0 0 "[]" 0] g by blast
  then have a: "get_nearest_landmark_default 7.5227 4.5198 = ''At Main Gate''"
    unfolding lat lng name by simp
  have b: "get_nearest_landmark 0 0 1 = ''On Campus (Location Unknown)''"
    using inst [of 1 0 0 "[]" 0] origin_far_from_catalog by blast
  have "landmark_distance (lm_lat g) (lm_lng g) g \<le> 1"
    by (simp add: landmark_distance_def calculate_distance_self)
  then have "\<exists>l\<in>set OAU_LANDMARKS. landmark_distance 7.5227 4.5198 l \<le> 1"
    using g unfolding lat lng by blast
  then have c: "\<exists>l\<in>set OAU_LANDMARKS.
         landmark_distance 7.5227 4.5198 l \<le> 1
         \<and> get_nearest_landmark 7.5227 4.5198 1 =
             tier_label (lm_name l) (py_round (landmark_distance 7.5227 4.5198 l * 1000))"
    using inst [of 1 "7.5227" "4.5198" "[]" 0] by blast
  show ?thesis using a nearest_north_of_hospital b c by (intro conjI)
qed

section \<open>Properties of the pickup score\<close>

lemma distance_score_antimono:
  "pl_distance_meters l1 \<le> pl_distance_meters l2 \<Longrightarrow> distance_score l2 \<le> distance_score l1"
  by (simp add: distance_score_def Let_def max_def)

lemma total_score_closer:
  assumes "nearby_drivers d1 = nearby_drivers d2"
    and "accessibility_score l1 = accessibility_score l2"
    and "safety_score l1 = safety_score l2"
    and "pl_distance_meters l1 \<le> pl_distance_meters l2"
  shows "total_score l2 d2 \<le> total_score l1 d1"
  using assms distance_score_antimono [of l1 l2]
  by (simp add: total_score_def driver_score_def)

text \<open>
  C7.  Of two candidate landmarks whose scores agree on the driver count, on the
  accessibility and on the safety, the one strictly closer to the passenger gets a total
  score that is not lower, before and after the rounding to one decimal.  The distance
  enters the total as \<open>max 0 (100 - km * 50)\<close>, which does not increase with the
  distance, with weight 0.3.
\<close>

theorem C7_closer_landmark_scores_no_lower:
  assumes "ps_driver_count (calculate_pickup_score l1 d1)
             = ps_driver_count (calculate_pickup_score l2 d2)"
    and "ps_accessibility (calculate_pickup_score l1 d1)
             = ps_accessibility (calculate_pickup_score l2 d2)"
    and "ps_safety (calculate_pickup_score l1 d1) = ps_safety (calculate_pickup_score l2 d2)"
    and "pl_distance_meters l1 < pl_distance_meters l2"
  shows "ps_total_score (calculate_pickup_score l2 d2)
           \<le> ps_total_score (calculate_pickup_score l1 d1)
         \<and> total_score l2 d2 \<le> total_score l1 d1
         \<and> distance_score l2 \<le> distance_score l1
         \<and> distance_score l1 = max 0 (100 - pl_distance_meters l1 / 1000 * 50)
         \<and> total_score l1 d1 =
             distance_score l1 * 0.3 + driver_score d1 * 0.4
             + accessibility_score l1 * 0.2 + safety_score l1 * 0.1"
proof -
  have e: "nearby_drivers d1 = nearby_drivers d2"
    "accessibility_score l1 = accessibility_score l2"
    "safety_score l1 = safety_score l2"
    using assms(1-3) by (simp_all add: calculate_pickup_score_def)
  have le: "pl_distance_meters l1 \<le> pl_distance_meters l2" using assms(4) by simp
  have t: "total_score l2 d2 \<le> total_score l1 d1"
    using e le by (rule total_score_closer)
  have "py_round_to 1 (total_score l2 d2) \<le> py_round_to 1 (total_score l1 d1)"
    using t by (rule py_round_to_mono)
  then have r: "ps_total_score (calculate_pickup_score l2 d2)
           \<le> ps_total_score (calculate_pickup_score l1 d1)"
    by (simp add: calculate_pickup_score_def)
  have d: "distance_score l2 \<le> distance_score l1"
    using le by (rule distance_score_antimono)
  show ?thesis
    using r t d by (simp add: distance_score_def total_score_def Let_def)
qed

theorem C7_closer_landmark_witness:
  "ps_total_score (calculate_pickup_score
       \<lparr>pl_distance_meters = 800, pl_type = Some ''entrance'', pl_id = Some ''main_gate''\<rparr> [])
     \<le> ps_total_score (calculate_pickup_score
       \<lparr>pl_distance_meters = 100, pl_type = Some ''entrance'', pl_id = Some ''main_gate''\<rparr> [])
   \<and> total_score \<lparr>pl_distance_meters = 800, pl_type = Some ''entrance'',
                   pl_id = Some ''main_gate''\<rparr> [] = 45
   \<and> total_score \<lparr>pl_distance_meters = 100, pl_type = Some ''entrance'',
                   pl_id = Some ''main_gate''\<rparr> [] = 55.5"
proof -
  define near where "near = \<lparr>pl_distance_meters = 100, pl_type = Some ''entrance'',
                   pl_id = Some ''main_gate''\<rparr>"
  define far where "far = \<lparr>pl_distance_meters = 800, pl_type = Some ''entrance'',
                   pl_id = Some ''main_gate''\<rparr>"
  have 1: "ps_driver_count (calculate_pickup_score near [])
             = ps_driver_count (calculate_pickup_score far [])"
    by (simp add: calculate_pickup_score_def)
  have 2: "ps_accessibility (calculate_pickup_score near [])
             = ps_accessibility (calculate_pickup_score far [])"
    by (simp add: calculate_pickup_score_def accessibility_score_def near_def far_def)
  have 3: "ps_safety (calculate_pickup_score near []) = ps_safety (calculate_pickup_score far [])"
    by (simp add: calculate_pickup_score_def safety_score_def near_def far_def)
  have 4: "pl_distance_meters near < pl_distance_meters far"
    by (simp add: near_def far_def)
  have a: "ps_total_score (calculate_pickup_score far [])
     \<le> ps_total_score (calculate_pickup_score near [])"
    using C7_closer_landmark_scores_no_lower [OF 1 2 3 4] by blast
  have b: "total_score far [] = 45"
    by (simp add: far_def total_score_def distance_score_def driver_score_def nearby_drivers_def
        accessibility_score_def accessibility_scores_def safety_score_def safety_landmarks_def)
  have c: "total_score near [] = 55.5"
    by (simp add: near_def total_score_def distance_score_def driver_score_def nearby_drivers_def
        accessibility_score_def accessibility_scores_def safety_score_def safety_landmarks_def)
  show ?thesis using a b c unfolding near_def far_def by (intro conjI)
qed

section \<open>Properties of the bike-availability status\<close>

lemma determine_overall_bike_status_thresholds:
  "determine_overall_bike_status stats =
     (if stats = [] then ''unknown''
      else status_by_thresholds (stat_percentage stats ''high'')
             (stat_percentage stats ''medium'') (stat_percentage stats ''low'')
             (stat_percentage stats ''none''))"
  by (simp add: determine_overall_bike_status_def status_by_thresholds_def Let_def)

lemma status_high_60:
  "determine_overall_bike_status [(''high'', \<lparr>as_count = c, as_percentage = 60\<rparr>)] = ''excellent''"
  by (simp add: determine_overall_bike_status_def stat_percentage_def)

lemma status_low_40_none_30:
  "determine_overall_bike_status
     [(''low'', \<lparr>as_count = c, as_percentage = 40\<rparr>),
      (''none'', \<lparr>as_count = d, as_percentage = 30\<rparr>)] = ''poor''"
  using float_add_exact_examples
  by (simp add: determine_overall_bike_status_def stat_percentage_def)

lemma unpack_two_member: "unpack_two (availability_value a) = Inl ValueError"
  by (cases a) (simp_all add: unpack_two_def)

text \<open>
  Every result with a row raises: the first element that \<^verbatim>\<open>scalars().all()\<close> returns
  is a member, whose string has three, four or six characters.
\<close>

lemma get_bike_availability_stats_raises:
  "get_bike_availability_stats (row # rows) = Inl ValueError"
  by (simp add: get_bike_availability_stats_def scalars_all_def unpack_two_member)

lemma get_bike_availability_stats_empty:
  "get_bike_availability_stats [] = Inr (StatusOnly ''no_recent_data'')"
  by (simp add: get_bike_availability_stats_def scalars_all_def)

text \<open>
  C8.  The code on a result of 10 reports, 6 of them high: it raises \<^verbatim>\<open>ValueError\<close>,
  as it does on every result that has a row, where the claim gives the status
  ``excellent''.  What holds of the code: with no row the result is the status
  ``no_recent_data'', none of the four; \<^verbatim>\<open>_determine_overall_bike_status\<close>, on a
  distribution that is not empty, follows the four threshold rules, first match first;
  high at 60 is ``excellent'', low at 40 with none at 30 is ``poor''.
\<close>

theorem C8_bike_status_raises_on_reports:
  "get_bike_availability_stats [(HIGH, 6), (LOW, 4)] = Inl ValueError
   \<and> get_bike_availability_stats (row # rows) = Inl ValueError
   \<and> get_bike_availability_stats [] = Inr (StatusOnly ''no_recent_data'')
   \<and> ''no_recent_data'' \<notin> {''excellent'', ''good'', ''poor'', ''moderate''}
   \<and> determine_overall_bike_status stats =
       (if stats = [] then ''unknown''
        else status_by_thresholds (stat_percentage stats ''high'')
               (stat_percentage stats ''medium'') (stat_percentage stats ''low'')
               (stat_percentage stats ''none''))
   \<and> status_by_thresholds high medium low none =
       (if 50 \<le> high then ''excellent''
        else if 60 \<le> float_add high medium then ''good''
        else if 60 \<le> float_add low none then ''poor''
        else ''moderate'')
   \<and> determine_overall_bike_status [(''high'', \<lparr>as_count = c, as_percentage = 60\<rparr>)]
       = ''excellent''
   \<and> determine_overall_bike_status
         [(''low'', \<lparr>as_count = c, as_percentage = 40\<rparr>),
          (''none'', \<lparr>as_count = d, as_percentage = 30\<rparr>)] = ''poor''"
proof (intro conjI)
  show "get_bike_availability_stats [(HIGH, 6), (LOW, 4)] = Inl ValueError"
    by (rule get_bike_availability_stats_raises)
  show "get_bike_availability_stats (row # rows) = Inl ValueError"
    by (rule get_bike_availability_stats_raises)
  show "get_bike_availability_stats [] = Inr (StatusOnly ''no_recent_data'')"
    by (rule get_bike_availability_stats_empty)
  show "''no_recent_data'' \<notin> {''excellent'', ''good'', ''poor'', ''moderate''}"
    by simp
  show "determine_overall_bike_status stats =
       (if stats = [] then ''unknown''
        else status_by_thresholds (stat_percentage stats ''high'')
               (stat_percentage stats ''medium'') (stat_percentage stats ''low'')
               (stat_percentage stats ''none''))"
    by (rule determine_overall_bike_status_thresholds)
  show "status_by_thresholds high medium low none =
       (if 50 \<le> high then ''excellent''
        else if 60 \<le> float_add high medium then ''good''
        else if 60 \<le> float_add low none then ''poor''
        else ''moderate'')"
    by (rule status_by_thresholds_def)
  show "determine_overall_bike_status [(''high'', \<lparr>as_count = c, as_percentage = 60\<rparr>)]
       = ''excellent''"
    by (rule status_high_60)
  show "determine_overall_bike_status
         [(''low'', \<lparr>as_count = c, as_percentage = 40\<rparr>),
          (''none'', \<lparr>as_count = d, as_percentage = 30\<rparr>)] = ''poor''"
    by (rule status_low_40_none_30)
qed

section \<open>Properties of the hourly demand\<close>

lemma first_max_by_greatest:
  "first_max_by key best xs \<in> set (best # xs)
   \<and> (\<forall>x\<in>set (best # xs). key x \<le> key (first_max_by key best xs))"
proof (induction xs arbitrary: best)
  case Nil
  show ?case by simp
next
  case (Cons x xs)
  show ?case
    using Cons.IH [of "if key best < key x then x else best"]
    by (auto split: if_splits)
qed

lemma first_min_by_least:
  "first_min_by key best xs \<in> set (best # xs)
   \<and> (\<forall>x\<in>set (best # xs). key (first_min_by key best xs) \<le> key x)"
proof (induction xs arbitrary: best)
  case Nil
  show ?case by simp
next
  case (Cons x xs)
  show ?case
    using Cons.IH [of "if key x < key best then x else best"]
    by (auto split: if_splits)
qed

lemma py_max_greatest:
  "xs \<noteq> [] \<Longrightarrow> \<exists>m. py_max key xs = Inr m \<and> m \<in> set xs \<and> (\<forall>x\<in>set xs. key x \<le> key m)"
  using first_max_by_greatest [of key "hd xs" "tl xs"]
  by (cases xs) (auto simp: py_max_def)

lemma py_min_least:
  "xs \<noteq> [] \<Longrightarrow> \<exists>m. py_min key xs = Inr m \<and> m \<in> set xs \<and> (\<forall>x\<in>set xs. key m \<le> key x)"
  using first_min_by_least [of key "hd xs" "tl xs"]
  by (cases xs) (auto simp: py_min_def)

lemma map_of_tabulate:
  "h \<in> set ks \<Longrightarrow> map_of (map (\<lambda>k. (k, f k)) ks) h = Some (f h)"
  by (induction ks) auto

lemma complete_hourly_keys: "map fst (complete_hourly data) = [0..23]"
  by (simp add: complete_hourly_def comp_def)

lemma complete_hourly_lookup:
  "h \<in> {0..23} \<Longrightarrow>
     demand_at (complete_hourly data) h = Some (case data h of None \<Rightarrow> 0 | Some c \<Rightarrow> c)"
  unfolding demand_at_def complete_hourly_def
  by (rule map_of_tabulate) simp

lemma complete_hourly_set:
  "x \<in> set (complete_hourly data) \<Longrightarrow>
     fst x \<in> {0..23} \<and> demand_at (complete_hourly data) (fst x) = Some (snd x)"
proof -
  assume "x \<in> set (complete_hourly data)"
  then obtain h where h: "h \<in> {0..23}"
    and x: "x = (h, case data h of None \<Rightarrow> 0 | Some c \<Rightarrow> c)"
    by (auto simp: complete_hourly_def)
  show ?thesis using h complete_hourly_lookup [OF h, of data] by (simp add: x)
qed

lemma complete_hourly_member:
  "h \<in> {0..23} \<Longrightarrow> demand_at (complete_hourly data) h = Some c \<Longrightarrow>
     (h, c) \<in> set (complete_hourly data)"
  unfolding demand_at_def by (rule map_of_SomeD)

lemma complete_hourly_nonempty: "complete_hourly data \<noteq> []"
proof -
  have "length (map fst (complete_hourly data)) = 24"
    by (simp only: complete_hourly_keys) simp
  then show ?thesis by auto
qed

text \<open>
  From any dictionary on, the function completes the distribution: the keys are the
  24 hours, an hour of the dictionary keeps its count, any other hour has 0, and the
  peak and the lowest hour are hours of the greatest and of the least count.
\<close>

lemma hourly_report_result:
  "\<exists>r. hourly_report data = Inr r
     \<and> hourly_distribution r = complete_hourly data
     \<and> peak_hour r \<in> {0..23} \<and> lowest_hour r \<in> {0..23}
     \<and> (\<exists>p. demand_at (complete_hourly data) (peak_hour r) = Some p
           \<and> (\<forall>h\<in>{0..23}. \<forall>c. demand_at (complete_hourly data) h = Some c \<longrightarrow> c \<le> p))
     \<and> (\<exists>q. demand_at (complete_hourly data) (lowest_hour r) = Some q
           \<and> (\<forall>h\<in>{0..23}. \<forall>c. demand_at (complete_hourly data) h = Some c \<longrightarrow> q \<le> c))"
proof -
  let ?C = "complete_hourly data"
  obtain hi where hi: "py_max snd ?C = Inr hi" "hi \<in> set ?C" "\<forall>x\<in>set ?C. snd x \<le> snd hi"
    using py_max_greatest [OF complete_hourly_nonempty, of snd data] by blast
  obtain lo where lo: "py_min snd ?C = Inr lo" "lo \<in> set ?C" "\<forall>x\<in>set ?C. snd lo \<le> snd x"
    using py_min_least [OF complete_hourly_nonempty, of snd data] by blast
  define r where "r = \<lparr>hourly_distribution = ?C, peak_hour = fst hi, lowest_hour = fst lo,
      average_hourly = float_div (real (sum_list (map snd ?C))) 24\<rparr>"
  have res: "hourly_report data = Inr r"
    by (simp add: hourly_report_def Let_def hi(1) lo(1) r_def)
  have hi': "fst hi \<in> {0..23}" "demand_at ?C (fst hi) = Some (snd hi)"
    using complete_hourly_set [OF hi(2)] by auto
  have lo': "fst lo \<in> {0..23}" "demand_at ?C (fst lo) = Some (snd lo)"
    using complete_hourly_set [OF lo(2)] by auto
  have mx: "\<forall>h\<in>{0..23}. \<forall>c. demand_at ?C h = Some c \<longrightarrow> c \<le> snd hi"
  proof (intro ballI allI impI)
    fix h c assume "h \<in> {0..23}" "demand_at ?C h = Some c"
    then have "(h, c) \<in> set ?C" by (rule complete_hourly_member)
    then show "c \<le> snd hi" using hi(3) by force
  qed
  have mn: "\<forall>h\<in>{0..23}. \<forall>c. demand_at ?C h = Some c \<longrightarrow> snd lo \<le> c"
  proof (intro ballI allI impI)
    fix h c assume "h \<in> {0..23}" "demand_at ?C h = Some c"
    then have "(h, c) \<in> set ?C" by (rule complete_hourly_member)
    then show "snd lo \<le> c" using lo(3) by force
  qed
  show ?thesis
    using res hi' lo' mx mn by (intro exI [of _ r]) (simp add: r_def)
qed

lemma upto_0_23: "[0..23] = [0,1,2,3,4,5,6,7,8,9,10,11,12,13,14,15,16,17,18,19,20,21,22,23::int]"
  by (simp add: upto_rec1)

text \<open>
  Every result with a row raises: the first element that \<^verbatim>\<open>scalars().all()\<close> returns
  is the hour of the row, a number.
\<close>

lemma analyze_hourly_demand_raises: "analyze_hourly_demand (row # rows) = Inl TypeError"
  by (simp add: analyze_hourly_demand_def scalars_all_def)

lemma analyze_hourly_demand_empty:
  "analyze_hourly_demand [] =
     Inr \<lparr>hourly_distribution = map (\<lambda>hour. (hour, 0)) [0..23],
          peak_hour = 0, lowest_hour = 0, average_hourly = 0\<rparr>"
  by (simp add: analyze_hourly_demand_def scalars_all_def hourly_report_def complete_hourly_def
      upto_0_23 py_max_def py_min_def float_div_def binary64_0)

text \<open>
  C9.  The code on a result of two rows, 5 sessions at hour 8 and 9 at hour 17: it
  raises \<^verbatim>\<open>TypeError\<close>, as it does on every result that has a row, where the claim
  gives a distribution over the 24 hours.  What holds of the code: with no row the
  distribution has exactly the keys 0 to 23, each with the count 0; and from any
  dictionary \<^verbatim>\<open>hourly_data\<close> on, the function returns a distribution with exactly the
  keys 0 to 23 in which an hour of the dictionary keeps its count and every other hour
  has 0, a peak hour that no hour exceeds in count and a lowest hour that no hour falls
  below.
\<close>

theorem C9_hourly_demand_raises_on_rows:
  "analyze_hourly_demand [(8, 5), (17, 9)] = Inl TypeError
   \<and> analyze_hourly_demand (row # rows) = Inl TypeError
   \<and> analyze_hourly_demand [] =
       Inr \<lparr>hourly_distribution = map (\<lambda>hour. (hour, 0)) [0..23],
            peak_hour = 0, lowest_hour = 0, average_hourly = 0\<rparr>
   \<and> (\<exists>r. hourly_report data = Inr r
          \<and> map fst (hourly_distribution r) = [0..23]
          \<and> (\<forall>h\<in>{0..23}. demand_at (hourly_distribution r) h
                 = Some (case data h of None \<Rightarrow> 0 | Some c \<Rightarrow> c))
          \<and> peak_hour r \<in> {0..23} \<and> lowest_hour r \<in> {0..23}
          \<and> (\<exists>p. demand_at (hourly_distribution r) (peak_hour r) = Some p
                \<and> (\<forall>h\<in>{0..23}. \<forall>c. demand_at (hourly_distribution r) h = Some c
                       \<longrightarrow> c \<le> p))
          \<and> (\<exists>q. demand_at (hourly_distribution r) (lowest_hour r) = Some q
                \<and> (\<forall>h\<in>{0..23}. \<forall>c. demand_at (hourly_distribution r) h = Some c
                       \<longrightarrow> q \<le> c)))"
proof (intro conjI)
  show "analyze_hourly_demand [(8, 5), (17, 9)] = Inl TypeError"
    by (rule analyze_hourly_demand_raises)
  show "analyze_hourly_demand (row # rows) = Inl TypeError"
    by (rule analyze_hourly_demand_raises)
  show "analyze_hourly_demand [] =
       Inr \<lparr>hourly_distribution = map (\<lambda>hour. (hour, 0)) [0..23],
            peak_hour = 0, lowest_hour = 0, average_hourly = 0\<rparr>"
    by (rule analyze_hourly_demand_empty)
  obtain r where r: "hourly_report data = Inr r"
    and d: "hourly_distribution r = complete_hourly data"
    and pk: "peak_hour r \<in> {0..23}" and lw: "lowest_hour r \<in> {0..23}"
    and mx: "\<exists>p. demand_at (complete_hourly data) (peak_hour r) = Some p
           \<and> (\<forall>h\<in>{0..23}. \<forall>c. demand_at (complete_hourly data) h = Some c \<longrightarrow> c \<le> p)"
    and mn: "\<exists>q. demand_at (complete_hourly data) (lowest_hour r) = Some q
           \<and> (\<forall>h\<in>{0..23}. \<forall>c. demand_at (complete_hourly data) h = Some c \<longrightarrow> q \<le> c)"
    using hourly_report_result [of data] by blast
  have keys: "map fst (hourly_distribution r) = [0..23]"
    by (simp only: d complete_hourly_keys)
  have all: "\<forall>h\<in>{0..23}. demand_at (hourly_distribution r) h
                 = Some (case data h of None \<Rightarrow> 0 | Some c \<Rightarrow> c)"
    using complete_hourly_lookup [of _ data] by (simp add: d)
  show "\<exists>r. hourly_report data = Inr r
          \<and> map fst (hourly_distribution r) = [0..23]
          \<and> (\<forall>h\<in>{0..23}. demand_at (hourly_distribution r) h
                 = Some (case data h of None \<Rightarrow> 0 | Some c \<Rightarrow> c))
          \<and> peak_hour r \<in> {0..23} \<and> lowest_hour r \<in> {0..23}
          \<and> (\<exists>p. demand_at (hourly_distribution r) (peak_hour r) = Some p
                \<and> (\<forall>h\<in>{0..23}. \<forall>c. demand_at (hourly_distribution r) h = Some c
                       \<longrightarrow> c \<le> p))
          \<and> (\<exists>q. demand_at (hourly_distribution r) (lowest_hour r) = Some q
                \<and> (\<forall>h\<in>{0..23}. \<forall>c. demand_at (hourly_distribution r) h = Some c
                       \<longrightarrow> q \<le> c))"
    using r keys all pk lw mx mn unfolding d [symmetric]
    by (intro exI [of _ r] conjI)
qed

theorem C9_hourly_demand_witness:
  "\<exists>r. hourly_report [8 \<mapsto> 5, 17 \<mapsto> 9] = Inr r
     \<and> map fst (hourly_distribution r) = [0..23]
     \<and> demand_at (hourly_distribution r) 8 = Some 5
     \<and> demand_at (hourly_distribution r) 17 = Some 9
     \<and> demand_at (hourly_distribution r) 3 = Some 0
     \<and> peak_hour r = 17
     \<and> demand_at (hourly_distribution r) (lowest_hour r) = Some 0"
proof -
  let ?data = "[8 \<mapsto> 5, 17 \<mapsto> 9] :: int \<rightharpoonup> nat"
  obtain r where r: "hourly_report ?data = Inr r"
    and keys: "map fst (hourly_distribution r) = [0..23]"
    and all: "\<forall>h\<in>{0..23}. demand_at (hourly_distribution r) h
                 = Some (case ?data h of None \<Rightarrow> 0 | Some c \<Rightarrow> c)"
    and pk: "peak_hour r \<in> {0..23}" and lw: "lowest_hour r \<in> {0..23}"
    and mx: "\<exists>p. demand_at (hourly_distribution r) (peak_hour r) = Some p
                \<and> (\<forall>h\<in>{0..23}. \<forall>c. demand_at (hourly_distribution r) h = Some c
                       \<longrightarrow> c \<le> p)"
    and mn: "\<exists>q. demand_at (hourly_distribution r) (lowest_hour r) = Some q
                \<and> (\<forall>h\<in>{0..23}. \<forall>c. demand_at (hourly_distribution r) h = Some c
                       \<longrightarrow> q \<le> c)"
    using C9_hourly_demand_raises_on_rows [of "(0, 0)" "[]" ?data] by blast
  have d8: "demand_at (hourly_distribution r) 8 = Some 5"
    and d17: "demand_at (hourly_distribution r) 17 = Some 9"
    and d3: "demand_at (hourly_distribution r) 3 = Some 0"
    using all by simp_all
  obtain p where p: "demand_at (hourly_distribution r) (peak_hour r) = Some p"
    and pmax: "\<forall>h\<in>{0..23}. \<forall>c. demand_at (hourly_distribution r) h = Some c \<longrightarrow> c \<le> p"
    using mx by blast
  have "9 \<le> p" using pmax d17 by force
  moreover have "p = (case ?data (peak_hour r) of None \<Rightarrow> 0 | Some c \<Rightarrow> c)"
    using all pk p by simp
  ultimately have peak: "peak_hour r = 17"
    by (cases "peak_hour r = 17"; cases "peak_hour r = 8") auto
  obtain q where q: "demand_at (hourly_distribution r) (lowest_hour r) = Some q"
    and qmin: "\<forall>h\<in>{0..23}. \<forall>c. demand_at (hourly_distribution r) h = Some c \<longrightarrow> q \<le> c"
    using mn by blast
  have "q \<le> 0" using qmin d3 by force
  then have low: "demand_at (hourly_distribution r) (lowest_hour r) = Some 0"
    using q by simp
  show ?thesis
    using r keys d8 d17 d3 peak low by (intro exI [of _ r] conjI)
qed

section \<open>Properties of the clustering\<close>

lemma add_location_centred:
  assumes "center_lat c = lu_latitude seed" "center_lng c = lu_longitude seed" "radius c = 100"
  shows "add_location c (sample_point s) =
     (if within_radius seed s
      then (c\<lparr>locations := locations c @ [sample_point s], user_count := user_count c + 1\<rparr>, True)
      else (c, False))"
  using assms
  by (simp add: add_location_def within_radius_def sample_point_def LocationPoint_def Let_def)

lemma within_radius_self: "within_radius (fst s) s"
  by (simp add: within_radius_def calculate_distance_self)

lemma inner_step_centred:
  assumes "center_lat c = lu_latitude seed" "center_lng c = lu_longitude seed" "radius c = 100"
  shows "inner_step (c, P) e =
     (if fst e \<notin> P \<and> within_radius seed (snd e)
      then (c\<lparr>locations := locations c @ [sample_point (snd e)],
               user_count := user_count c + 1\<rparr>, insert (fst e) P)
      else (c, P))"
proof -
  have "LocationPoint (lu_latitude (fst (snd e))) (lu_longitude (fst (snd e)))
          (lu_timestamp (fst (snd e))) = sample_point (snd e)"
    by (simp add: sample_point_def)
  then show ?thesis
    unfolding inner_step_def Let_def
    by (simp add: add_location_centred [OF assms])
qed

text \<open>
  The inner loop over a list of indexed samples with distinct indices: the cluster takes,
  in order, the samples that were unprocessed at the start and lie within the radius of
  the seed, and their indices become processed.
\<close>

lemma inner_loop:
  assumes "center_lat c = lu_latitude seed" "center_lng c = lu_longitude seed" "radius c = 100"
    and "distinct (map fst L)"
  shows "foldl inner_step (c, P) L =
     (c\<lparr>locations := locations c
            @ map (\<lambda>e. sample_point (snd e))
                (filter (\<lambda>e. fst e \<notin> P \<and> within_radius seed (snd e)) L),
         user_count := user_count c
            + length (filter (\<lambda>e. fst e \<notin> P \<and> within_radius seed (snd e)) L)\<rparr>,
      P \<union> fst ` set (filter (\<lambda>e. fst e \<notin> P \<and> within_radius seed (snd e)) L))"
  using assms
proof (induction L arbitrary: c P)
  case Nil
  show ?case by simp
next
  case (Cons e L)
  have dL: "distinct (map fst L)" and ne: "\<forall>e'\<in>set L. fst e' \<noteq> fst e"
    using Cons.prems(4) by (auto simp: image_iff)
  show ?case
  proof (cases "fst e \<notin> P \<and> within_radius seed (snd e)")
    case False
    then have "inner_step (c, P) e = (c, P)"
      by (simp only: inner_step_centred [OF Cons.prems(1-3)] if_False)
    then show ?thesis
      using False Cons.IH [OF Cons.prems(1-3) dL, of P] by auto
  next
    case True
    define c' where "c' = c\<lparr>locations := locations c @ [sample_point (snd e)],
               user_count := user_count c + 1\<rparr>"
    have step: "inner_step (c, P) e = (c', insert (fst e) P)"
      using True by (simp only: inner_step_centred [OF Cons.prems(1-3)] c'_def) simp
    have c': "center_lat c' = lu_latitude seed" "center_lng c' = lu_longitude seed"
      "radius c' = 100"
      using Cons.prems(1-3) by (simp_all add: c'_def)
    have flt: "filter (\<lambda>e'. fst e' \<notin> insert (fst e) P \<and> within_radius seed (snd e')) L
        = filter (\<lambda>e'. fst e' \<notin> P \<and> within_radius seed (snd e')) L"
      using ne by (intro filter_cong) auto
    have ih: "foldl inner_step (c', insert (fst e) P) L =
       (c'\<lparr>locations := locations c'
            @ map (\<lambda>e. sample_point (snd e))
                (filter (\<lambda>e. fst e \<notin> P \<and> within_radius seed (snd e)) L),
         user_count := user_count c'
            + length (filter (\<lambda>e. fst e \<notin> P \<and> within_radius seed (snd e)) L)\<rparr>,
        insert (fst e) P
          \<union> fst ` set (filter (\<lambda>e. fst e \<notin> P \<and> within_radius seed (snd e)) L))"
      using Cons.IH [OF c' dL, of "insert (fst e) P"] unfolding flt .
    have "foldl inner_step (c, P) (e # L) = foldl inner_step (c', insert (fst e) P) L"
      by (simp add: step)
    then show ?thesis
      unfolding ih using True by (simp add: c'_def)
  qed
qed

lemma outer_step_processed: "fst e \<in> P \<Longrightarrow> outer_step E (cs, P) e = (cs, P)"
  by (simp add: outer_step_def)

lemma outer_step_seed:
  assumes new: "fst e \<notin> P" and d: "distinct (map fst E)"
  shows "outer_step E (cs, P) e =
     (if 2 \<le> user_count (seeded_cluster (snd e) (map snd
            (filter (\<lambda>e'. fst e' \<notin> insert (fst e) P
                          \<and> within_radius (fst (snd e)) (snd e')) E)))
      then cs @ [seeded_cluster (snd e) (map snd
            (filter (\<lambda>e'. fst e' \<notin> insert (fst e) P
                          \<and> within_radius (fst (snd e)) (snd e')) E))]
      else cs,
      insert (fst e) P
        \<union> fst ` set (filter (\<lambda>e'. fst e' \<notin> insert (fst e) P
                                   \<and> within_radius (fst (snd e)) (snd e')) E))"
proof -
  define seed where "seed = fst (snd e)"
  define c0 where "c0 = LocationCluster (lu_latitude seed) (lu_longitude seed) 100"
  define c1 where "c1 = c0\<lparr>locations := [sample_point (snd e)], user_count := 1\<rparr>"
  define A where "A = filter (\<lambda>e'. fst e' \<notin> insert (fst e) P
                          \<and> within_radius seed (snd e')) E"
  have sp: "LocationPoint (lu_latitude seed) (lu_longitude seed) (lu_timestamp seed)
      = sample_point (snd e)"
    by (simp add: sample_point_def seed_def)
  have c0: "center_lat c0 = lu_latitude seed" "center_lng c0 = lu_longitude seed"
    "radius c0 = 100" "locations c0 = []" "user_count c0 = 0"
    by (simp_all add: c0_def LocationCluster_def)
  have "within_radius seed (snd e)" unfolding seed_def by (rule within_radius_self)
  then have add: "fst (add_location c0 (sample_point (snd e))) = c1"
    by (simp add: add_location_centred [OF c0(1-3)] c1_def c0)
  have c1: "center_lat c1 = lu_latitude seed" "center_lng c1 = lu_longitude seed"
    "radius c1 = 100"
    by (simp_all add: c1_def c0)
  have inner: "foldl inner_step (c1, insert (fst e) P) E =
      (c1\<lparr>locations := locations c1 @ map (\<lambda>e. sample_point (snd e)) A,
           user_count := user_count c1 + length A\<rparr>,
       insert (fst e) P \<union> fst ` set A)"
    unfolding A_def by (rule inner_loop [OF c1 d])
  have cl: "c1\<lparr>locations := locations c1 @ map (\<lambda>e. sample_point (snd e)) A,
           user_count := user_count c1 + length A\<rparr> = seeded_cluster (snd e) (map snd A)"
    by (simp add: seeded_cluster_def c1_def c0_def LocationCluster_def seed_def comp_def)
  have "outer_step E (cs, P) e =
      (if 2 \<le> user_count (seeded_cluster (snd e) (map snd A))
       then cs @ [seeded_cluster (snd e) (map snd A)] else cs,
       insert (fst e) P \<union> fst ` set A)"
    unfolding outer_step_def Let_def seed_def [symmetric] sp c0_def [symmetric] add
    using new by (simp add: inner cl)
  then show ?thesis by (simp only: A_def seed_def)
qed

text \<open>
  The outer loop, at any point of its walk: \<open>pre\<close> has been walked and is processed,
  \<open>suf\<close> is still to walk.  What it adds to the clusters is the greedy clustering of
  the samples of \<open>suf\<close> that are still unprocessed.
\<close>

lemma outer_loop:
  assumes "distinct (map fst (pre @ suf))" and "fst ` set pre \<subseteq> P"
  shows "fst (foldl (outer_step (pre @ suf)) (cs, P) suf) =
     cs @ greedy_clusters (map snd (filter (\<lambda>e. fst e \<notin> P) suf))"
  using assms
proof (induction suf arbitrary: pre cs P)
  case Nil
  show ?case by simp
next
  case (Cons e suf)
  let ?E = "pre @ e # suf"
  have E: "?E = (pre @ [e]) @ suf" by simp
  have dE: "distinct (map fst ?E)" by (rule Cons.prems(1))
  have d': "distinct (map fst ((pre @ [e]) @ suf))" using Cons.prems(1) by simp
  have ne: "\<forall>e'\<in>set suf. fst e' \<noteq> fst e"
    using Cons.prems(1) by (auto simp: image_iff)
  have inj: "inj_on fst (set suf)"
    using Cons.prems(1) by (simp add: distinct_map)
  show ?case
  proof (cases "fst e \<in> P")
    case True
    have pre': "fst ` set (pre @ [e]) \<subseteq> P" using Cons.prems(2) True by auto
    have "fst (foldl (outer_step ?E) (cs, P) (e # suf))
        = fst (foldl (outer_step ((pre @ [e]) @ suf)) (cs, P) suf)"
      by (simp add: outer_step_processed [OF True])
    also have "\<dots> = cs @ greedy_clusters (map snd (filter (\<lambda>e. fst e \<notin> P) suf))"
      by (rule Cons.IH [OF d' pre'])
    finally show ?thesis using True by simp
  next
    case False
    define seed where "seed = fst (snd e)"
    define A where "A = filter (\<lambda>e'. fst e' \<notin> insert (fst e) P
                          \<and> within_radius seed (snd e')) ?E"
    define rest where "rest = map snd (filter (\<lambda>e. fst e \<notin> P) suf)"
    define P2 where "P2 = insert (fst e) P \<union> fst ` set A"
    define cs2 where "cs2 = (if 2 \<le> user_count (seeded_cluster (snd e) (map snd A))
        then cs @ [seeded_cluster (snd e) (map snd A)] else cs)"
    have step: "outer_step ?E (cs, P) e = (cs2, P2)"
      unfolding cs2_def P2_def A_def seed_def by (rule outer_step_seed [OF False dE])
    have A_suf: "A = filter (\<lambda>e'. fst e' \<notin> P \<and> within_radius seed (snd e')) suf"
    proof -
      have "filter (\<lambda>e'. fst e' \<notin> insert (fst e) P \<and> within_radius seed (snd e')) pre = []"
        using Cons.prems(2) by (auto simp: filter_empty_conv)
      moreover have "filter (\<lambda>e'. fst e' \<notin> insert (fst e) P \<and> within_radius seed (snd e')) suf
          = filter (\<lambda>e'. fst e' \<notin> P \<and> within_radius seed (snd e')) suf"
        using ne by (intro filter_cong) auto
      ultimately show ?thesis by (simp add: A_def)
    qed
    have absorbed: "map snd A = filter (within_radius seed) rest"
      by (simp add: A_suf rest_def filter_map comp_def)
    have in_A: "fst e' \<in> fst ` set A \<longleftrightarrow> fst e' \<notin> P \<and> within_radius seed (snd e')"
      if "e' \<in> set suf" for e'
    proof
      assume "fst e' \<in> fst ` set A"
      then obtain a where a: "a \<in> set A" "fst a = fst e'" by auto
      then have "a \<in> set suf" by (simp add: A_suf)
      then have "a = e'" using inj that a(2) by (auto dest: inj_onD)
      then show "fst e' \<notin> P \<and> within_radius seed (snd e')" using a(1) by (simp add: A_suf)
    next
      assume "fst e' \<notin> P \<and> within_radius seed (snd e')"
      then have "e' \<in> set A" using that by (simp add: A_suf)
      then show "fst e' \<in> fst ` set A" by (rule imageI)
    qed
    have remaining: "map snd (filter (\<lambda>e. fst e \<notin> P2) suf)
        = filter (\<lambda>s. \<not> within_radius seed s) rest"
    proof -
      have "filter (\<lambda>e. fst e \<notin> P2) suf
          = filter (\<lambda>e'. fst e' \<notin> P \<and> \<not> within_radius seed (snd e')) suf"
        using ne in_A by (intro filter_cong) (auto simp: P2_def)
      then show ?thesis by (simp add: rest_def filter_map comp_def conj_commute)
    qed
    have pre': "fst ` set (pre @ [e]) \<subseteq> P2" using Cons.prems(2) by (auto simp: P2_def)
    have "fst (foldl (outer_step ?E) (cs, P) (e # suf))
        = fst (foldl (outer_step ((pre @ [e]) @ suf)) (cs2, P2) suf)"
      by (simp add: step)
    also have "\<dots> = cs2 @ greedy_clusters (map snd (filter (\<lambda>e. fst e \<notin> P2) suf))"
      by (rule Cons.IH [OF d' pre'])
    also have "\<dots> = cs @ greedy_clusters (snd e # rest)"
      by (simp add: cs2_def absorbed remaining seed_def Let_def)
    finally show ?thesis using False by (simp add: rest_def)
  qed
qed

lemma create_location_clusters_greedy:
  "create_location_clusters location_data = greedy_clusters location_data"
proof -
  let ?E = "List.enumerate 0 location_data"
  have d: "distinct (map fst ([] @ ?E))" by (simp add: map_fst_enumerate flip: enumerate_eq_zip)
  have "fst (foldl (outer_step ([] @ ?E)) ([], {}) ?E)
      = [] @ greedy_clusters (map snd (filter (\<lambda>e. fst e \<notin> {}) ?E))"
    by (rule outer_loop [OF d]) simp
  then show ?thesis by (simp add: create_location_clusters_def Let_def)
qed

lemma greedy_two_samples:
  "greedy_clusters [a, b] =
     (if within_radius (fst a) b then [seeded_cluster a [b]] else [])"
  by (simp add: Let_def seeded_cluster_def within_radius_self)

lemma metres_about_50:
  "47 < calculate_distance 7.52315 4.5198 7.5227 4.5198 * 1000
   \<and> calculate_distance 7.52315 4.5198 7.5227 4.5198 * 1000 < 64"
proof -
  have "\<bar>7.5227 - 7.52315\<bar> \<le> (180::real)" by simp
  from calculate_distance_same_lon [OF this, of "4.5198"]
  have "calculate_distance 7.52315 4.5198 7.5227 4.5198 = 6371 * radians \<bar>7.5227 - 7.52315\<bar>" .
  also have "\<bar>7.5227 - 7.52315\<bar> = (0.00045::real)" by simp
  finally have "calculate_distance 7.52315 4.5198 7.5227 4.5198 * 1000
      = 6371 * (0.00045 * (pi / 180)) * 1000"
    by (simp only: radians_def)
  then show ?thesis using pi_ge_three pi_less_4 by simp
qed

lemma metres_about_500:
  "477 < calculate_distance 7.5272 4.5198 7.5227 4.5198 * 1000
   \<and> calculate_distance 7.5272 4.5198 7.5227 4.5198 * 1000 < 638"
proof -
  have "\<bar>7.5227 - 7.5272\<bar> \<le> (180::real)" by simp
  from calculate_distance_same_lon [OF this, of "4.5198"]
  have "calculate_distance 7.5272 4.5198 7.5227 4.5198 = 6371 * radians \<bar>7.5227 - 7.5272\<bar>" .
  also have "\<bar>7.5227 - 7.5272\<bar> = (0.0045::real)" by simp
  finally have "calculate_distance 7.5272 4.5198 7.5227 4.5198 * 1000
      = 6371 * (0.0045 * (pi / 180)) * 1000"
    by (simp only: radians_def)
  then show ?thesis using pi_ge_three pi_less_4 by simp
qed

text \<open>
  C6.  \<^verbatim>\<open>_create_location_clusters\<close> computes the greedy clustering: in input
  order, each sample not yet processed seeds a cluster of radius 100 m centred at
  itself, the cluster absorbs every other unprocessed sample within 100 m of the seed,
  the absorbed samples are processed, and a cluster of fewer than 2 members is dropped.
  Hence two samples within 100 m of each other, as two samples 50 m apart are, give one
  cluster of 2 members, and two samples more than 100 m apart, as two samples 500 m
  apart are, give no cluster.
\<close>

theorem C6_greedy_clustering:
  "create_location_clusters location_data = greedy_clusters location_data
   \<and> greedy_clusters [] = []
   \<and> greedy_clusters (seed # rest) =
       (if 2 \<le> length (seed # filter (within_radius (fst seed)) rest)
        then [seeded_cluster seed (filter (within_radius (fst seed)) rest)] else [])
       @ greedy_clusters (filter (\<lambda>s. \<not> within_radius (fst seed) s) rest)
   \<and> seeded_cluster seed absorbed =
       \<lparr>center_lat = lu_latitude (fst seed), center_lng = lu_longitude (fst seed),
        radius = 100, locations = map sample_point (seed # absorbed),
        user_count = length (seed # absorbed)\<rparr>
   \<and> within_radius (fst a) b =
       (calculate_distance (lu_latitude (fst b)) (lu_longitude (fst b))
          (lu_latitude (fst a)) (lu_longitude (fst a)) * 1000 \<le> 100)
   \<and> (within_radius (fst a) b \<longrightarrow>
        create_location_clusters [a, b] = [seeded_cluster a [b]]
        \<and> user_count (seeded_cluster a [b]) = 2)
   \<and> (\<not> within_radius (fst a) b \<longrightarrow> create_location_clusters [a, b] = [])"
proof (intro conjI impI)
  show "create_location_clusters location_data = greedy_clusters location_data"
    by (rule create_location_clusters_greedy)
  show "greedy_clusters [] = []" by simp
  show "greedy_clusters (seed # rest) =
       (if 2 \<le> length (seed # filter (within_radius (fst seed)) rest)
        then [seeded_cluster seed (filter (within_radius (fst seed)) rest)] else [])
       @ greedy_clusters (filter (\<lambda>s. \<not> within_radius (fst seed) s) rest)"
    by (simp add: Let_def seeded_cluster_def)
  show "seeded_cluster seed absorbed =
       \<lparr>center_lat = lu_latitude (fst seed), center_lng = lu_longitude (fst seed),
        radius = 100, locations = map sample_point (seed # absorbed),
        user_count = length (seed # absorbed)\<rparr>"
    by (rule seeded_cluster_def)
  show "within_radius (fst a) b =
       (calculate_distance (lu_latitude (fst b)) (lu_longitude (fst b))
          (lu_latitude (fst a)) (lu_longitude (fst a)) * 1000 \<le> 100)"
    by (rule within_radius_def)
next
  assume "within_radius (fst a) b"
  then show "create_location_clusters [a, b] = [seeded_cluster a [b]]"
    by (simp only: create_location_clusters_greedy greedy_two_samples if_True)
next
  show "user_count (seeded_cluster a [b]) = 2"
    by (simp add: seeded_cluster_def)
next
  assume "\<not> within_radius (fst a) b"
  then show "create_location_clusters [a, b] = []"
    by (simp only: create_location_clusters_greedy greedy_two_samples if_False)
qed

theorem C6_greedy_clustering_witness:
  "create_location_clusters
     [(\<lparr>lu_latitude = 7.5227, lu_longitude = 4.5198, lu_timestamp = 0\<rparr>, PASSENGER),
      (\<lparr>lu_latitude = 7.52315, lu_longitude = 4.5198, lu_timestamp = 60\<rparr>, DRIVER)]
   = [seeded_cluster
        (\<lparr>lu_latitude = 7.5227, lu_longitude = 4.5198, lu_timestamp = 0\<rparr>, PASSENGER)
        [(\<lparr>lu_latitude = 7.52315, lu_longitude = 4.5198, lu_timestamp = 60\<rparr>, DRIVER)]]
   \<and> create_location_clusters
     [(\<lparr>lu_latitude = 7.5227, lu_longitude = 4.5198, lu_timestamp = 0\<rparr>, PASSENGER),
      (\<lparr>lu_latitude = 7.5272, lu_longitude = 4.5198, lu_timestamp = 60\<rparr>, DRIVER)]
   = []
   \<and> 47 < calculate_distance 7.52315 4.5198 7.5227 4.5198 * 1000
   \<and> calculate_distance 7.52315 4.5198 7.5227 4.5198 * 1000 < 64
   \<and> 477 < calculate_distance 7.5272 4.5198 7.5227 4.5198 * 1000
   \<and> calculate_distance 7.5272 4.5198 7.5227 4.5198 * 1000 < 638"
proof -
  define a :: sample
    where "a = (\<lparr>lu_latitude = 7.5227, lu_longitude = 4.5198, lu_timestamp = 0\<rparr>, PASSENGER)"
  define b :: sample
    where "b = (\<lparr>lu_latitude = 7.52315, lu_longitude = 4.5198, lu_timestamp = 60\<rparr>, DRIVER)"
  define c :: sample
    where "c = (\<lparr>lu_latitude = 7.5272, lu_longitude = 4.5198, lu_timestamp = 60\<rparr>, DRIVER)"
  have near: "within_radius (fst a) b"
    using metres_about_50 by (simp add: within_radius_def a_def b_def)
  have far: "\<not> within_radius (fst a) c"
    using metres_about_500 by (simp add: within_radius_def a_def c_def)
  have 1: "create_location_clusters [a, b] = [seeded_cluster a [b]]"
    using C6_greedy_clustering [of "[]" a "[]" "[]" a b] near by blast
  have 2: "create_location_clusters [a, c] = []"
    using C6_greedy_clustering [of "[]" a "[]" "[]" a c] far by blast
  show ?thesis
    using 1 2 metres_about_50 metres_about_500 unfolding a_def b_def c_def by (intro conjI) auto
qed

end
